theory Spec2Isabelle
  imports Complex_Main "HOL-Library.Multiset"
begin

section \<open>Errors and logits\<close>

text \<open>
  The Python exceptions the decoding code can raise.  Every raise of the source is an
  \<open>Inl\<close> branch of the model; a normal return is \<open>Inr\<close>.
\<close>

datatype error =
  NotImplementedError
  | RuntimeError
  | IndexError
  | TypeError
  | ValueError
  | EOFError
  | UnboundLocalError
  | AttributeError
  | NameError

definition bindE :: "error + 'a \<Rightarrow> ('a \<Rightarrow> error + 'b) \<Rightarrow> error + 'b" where
  "bindE m f = (case m of Inl e \<Rightarrow> Inl e | Inr x \<Rightarrow> f x)"

fun mapE :: "('a \<Rightarrow> error + 'b) \<Rightarrow> 'a list \<Rightarrow> error + 'b list" where
  "mapE f [] = Inr []"
| "mapE f (x # xs) =
     (case f x of Inl e \<Rightarrow> Inl e
      | Inr y \<Rightarrow> (case mapE f xs of Inl e \<Rightarrow> Inl e | Inr ys \<Rightarrow> Inr (y # ys)))"

text \<open>
  A logit is a finite score or \<open>-float('Inf')\<close>, the default \<open>filter_value\<close>.  A finite
  score is the number that the tensor holds.  Comparisons of scores are exact in floating
  point; every operation that rounds is a parameter (see \<open>kernel\<close> below).
\<close>

datatype logit = NegInf | Fin real

instantiation logit :: linorder
begin

fun less_eq_logit :: "logit \<Rightarrow> logit \<Rightarrow> bool" where
  "less_eq_logit NegInf _ = True"
| "less_eq_logit (Fin x) NegInf = False"
| "less_eq_logit (Fin x) (Fin y) = (x \<le> y)"

definition less_logit :: "logit \<Rightarrow> logit \<Rightarrow> bool" where
  "less_logit a b = (a \<le> b \<and> \<not> b \<le> a)"

instance
proof
  fix x y z :: logit
  show "(x < y) = (x \<le> y \<and> \<not> y \<le> x)"
    by (simp add: less_logit_def)
  show "x \<le> x"
    by (cases x) simp_all
  show "x \<le> y \<Longrightarrow> y \<le> z \<Longrightarrow> x \<le> z"
    by (cases x; cases y; cases z) simp_all
  show "x \<le> y \<Longrightarrow> y \<le> x \<Longrightarrow> x = y"
    by (cases x; cases y) simp_all
  show "x \<le> y \<or> y \<le> x"
    by (cases x; cases y) auto
qed

end

text \<open>
  The arithmetic of the tensor library.  The code computes in the floating-point type of
  its tensors, so the model fixes none of these results: each operation is a parameter,
  and the theorems hold for every choice of them.
  \<^item> \<open>softmax_op\<close>: \<open>F.softmax(row, dim=-1)\<close>;
  \<^item> \<open>cumsum_op\<close>: \<open>torch.cumsum(ps, dim=-1)\<close>;
  \<^item> \<open>scalar_op\<close>: a Python float as the comparison with a tensor sees it;
  \<^item> \<open>divide_op\<close>: division of a score by the temperature;
  \<^item> \<open>log_softmax_op\<close>: \<open>F.log_softmax(row, dim=-1)\<close>;
  \<^item> \<open>add_op\<close>: addition of two scores.
\<close>

record kernel =
  softmax_op :: "logit list \<Rightarrow> real list"
  cumsum_op :: "real list \<Rightarrow> real list"
  scalar_op :: "real \<Rightarrow> real"
  divide_op :: "real \<Rightarrow> real \<Rightarrow> real"
  log_softmax_op :: "real list \<Rightarrow> real list"
  add_op :: "real \<Rightarrow> real \<Rightarrow> real"

text \<open>The operations on rows return a row of the same length.\<close>

definition well_shaped :: "kernel \<Rightarrow> bool" where
  "well_shaped K \<longleftrightarrow>
     (\<forall>row. length (softmax_op K row) = length row) \<and>
     (\<forall>ps. length (cumsum_op K ps) = length ps) \<and>
     (\<forall>row. length (log_softmax_op K row) = length row)"

text \<open>
  The same operations without rounding, on real numbers, with \<open>exp(-inf) = 0\<close>.  They
  serve in concrete runs whose values floating point represents exactly, and in
  \<open>stream_generate\<close>, whose claim does not depend on the values.
\<close>

fun expl :: "logit \<Rightarrow> real" where
  "expl NegInf = 0"
| "expl (Fin x) = exp x"

definition softmax :: "logit list \<Rightarrow> real list" where
  "softmax row = map (\<lambda>x. expl x / sum_list (map expl row)) row"

fun cumsum_from :: "real \<Rightarrow> real list \<Rightarrow> real list" where
  "cumsum_from a [] = []"
| "cumsum_from a (p # ps) = (a + p) # cumsum_from (a + p) ps"

definition cumsum :: "real list \<Rightarrow> real list" where
  "cumsum ps = cumsum_from 0 ps"

definition log_softmax :: "real list \<Rightarrow> real list" where
  "log_softmax row = map (\<lambda>x. x - ln (sum_list (map exp row))) row"

definition exact_kernel :: kernel where
  "exact_kernel =
     \<lparr>softmax_op = softmax, cumsum_op = cumsum, scalar_op = (\<lambda>x. x),
      divide_op = (\<lambda>x t. x / t), log_softmax_op = log_softmax,
      add_op = (\<lambda>x y. x + y)\<rparr>"

section \<open>top\_k\_logits\<close>

text \<open>
  \<open>torch.sort(logits, descending=True)\<close> returns the sorted values with their original
  indices.  The model is an insertion sort on (value, index) pairs; among equal values it
  keeps the original order (torch leaves that order open).
\<close>

fun insert_desc :: "'a::linorder \<times> nat \<Rightarrow> ('a \<times> nat) list \<Rightarrow> ('a \<times> nat) list" where
  "insert_desc p [] = [p]"
| "insert_desc p (q # qs) = (if fst q \<le> fst p then p # q # qs else q # insert_desc p qs)"

definition sort_desc :: "'a::linorder list \<Rightarrow> ('a \<times> nat) list" where
  "sort_desc row = foldr insert_desc (zip row [0..<length row]) []"

text \<open>
  \<open>torch.topk(logits, k)[0][..., -1, None]\<close>: the k-th largest value of the row.
  \<open>torch.topk\<close> raises a RuntimeError when k exceeds the size of the row.
\<close>

definition topk_last :: "logit list \<Rightarrow> nat \<Rightarrow> error + logit" where
  "topk_last row k =
     (if length row < k then Inl RuntimeError
      else Inr (map fst (sort_desc row) ! (k - 1)))"

text \<open>Lines 108--111: every entry strictly below the k-th largest value is overwritten.\<close>

definition top_k_filter :: "nat \<Rightarrow> logit \<Rightarrow> logit list \<Rightarrow> error + logit list" where
  "top_k_filter k filter_value row =
     (case topk_last row k of
        Inl e \<Rightarrow> Inl e
      | Inr thr \<Rightarrow> Inr (map (\<lambda>x. if x < thr then filter_value else x) row))"

text \<open>Line 117: \<open>torch.cumsum(F.softmax(sorted_logits, dim=-1), dim=-1)\<close>, as computed.\<close>

definition cumulative_probs :: "kernel \<Rightarrow> logit list \<Rightarrow> real list" where
  "cumulative_probs K sorted_logits = cumsum_op K (softmax_op K sorted_logits)"

text \<open>
  Lines 120--123 on the sorted row: the removal mask \<open>cumulative_probs > top_p\<close>, shifted
  one place to the right with position 0 cleared.  The mask has the shape of the sorted
  row, and writing position 0 of an empty mask is an IndexError.
\<close>

definition sorted_indices_to_remove :: "kernel \<Rightarrow> logit list \<Rightarrow> real \<Rightarrow> error + bool list" where
  "sorted_indices_to_remove K sorted_logits top_p =
     (let remove = map (\<lambda>c. c > scalar_op K top_p) (cumulative_probs K sorted_logits)
      in if sorted_logits = [] then Inl IndexError else Inr (False # butlast remove))"

text \<open>Line 124: \<open>sorted_indices[sorted_indices_to_remove]\<close>.\<close>

definition select_mask :: "'a list \<Rightarrow> bool list \<Rightarrow> 'a list" where
  "select_mask xs msk = map fst (filter snd (zip xs msk))"

text \<open>Line 125: \<open>logits[indices_to_remove] = filter_value\<close>.\<close>

definition set_indices :: "'a list \<Rightarrow> nat list \<Rightarrow> 'a \<Rightarrow> 'a list" where
  "set_indices xs idx v = map (\<lambda>i. if i \<in> set idx then v else xs ! i) [0..<length xs]"

definition indices_to_remove :: "kernel \<Rightarrow> logit list \<Rightarrow> real \<Rightarrow> error + nat list" where
  "indices_to_remove K row top_p =
     (let sorted = sort_desc row;
          sorted_logits = map fst sorted;
          sorted_indices = map snd sorted
      in case sorted_indices_to_remove K sorted_logits top_p of
           Inl e \<Rightarrow> Inl e
         | Inr msk \<Rightarrow> Inr (select_mask sorted_indices msk))"

definition top_p_filter :: "kernel \<Rightarrow> real \<Rightarrow> logit \<Rightarrow> logit list \<Rightarrow> error + logit list" where
  "top_p_filter K top_p filter_value row =
     (case indices_to_remove K row top_p of
        Inl e \<Rightarrow> Inl e
      | Inr idx \<Rightarrow> Inr (set_indices row idx filter_value))"

text \<open>
  The token indices in the order of the sort, highest score first
  (\<open>sorted_indices\<close>), and those among them that the top-p part does not overwrite: the
  sorted indices at the positions where the shifted removal mask is clear.
\<close>

definition ranked :: "logit list \<Rightarrow> nat list" where
  "ranked row = map snd (sort_desc row)"

definition kept_ranked :: "kernel \<Rightarrow> logit list \<Rightarrow> real \<Rightarrow> nat list" where
  "kept_ranked K row top_p =
     (let sorted = sort_desc row
      in case sorted_indices_to_remove K (map fst sorted) top_p of
           Inl e \<Rightarrow> []
         | Inr msk \<Rightarrow> select_mask (map snd sorted) (map Not msk))"

text \<open>
  The exact softmax probability mass, before filtering, of a list of token indices.
\<close>

definition prob_mass :: "logit list \<Rightarrow> nat list \<Rightarrow> real" where
  "prob_mass row idx = sum_list (map (\<lambda>i. softmax row ! i) idx)"

text \<open>
  \<open>top_k_logits(logits, top_k, top_p, filter_value)\<close>.  \<open>logits\<close> is a list of rows.  The
  top-k part works row by row; the top-p part first reshapes with
  \<open>logits.view(logits.size()[1])\<close>, which fails unless there is exactly one row.
\<close>

definition top_k_logits ::
  "kernel \<Rightarrow> logit list list \<Rightarrow> int \<Rightarrow> real \<Rightarrow> logit \<Rightarrow> error + logit list list" where
  "top_k_logits K logits top_k top_p filter_value =
     bindE (if top_k > 0 then mapE (top_k_filter (nat top_k) filter_value) logits
            else Inr logits)
       (\<lambda>logits1.
          if top_p > 0 then
            (case logits1 of
               [row] \<Rightarrow> bindE (top_p_filter K top_p filter_value row) (\<lambda>r. Inr [r])
             | _ \<Rightarrow> Inl RuntimeError)
          else Inr logits1)"

text \<open>The number of entries of a row that do not hold the filter value.\<close>

definition unfiltered :: "logit \<Rightarrow> logit list \<Rightarrow> nat" where
  "unfiltered filter_value row = length (filter (\<lambda>x. x \<noteq> filter_value) row)"

text \<open>Descending order of the sorted (value, index) pairs.\<close>

definition desc :: "('a::linorder \<times> nat) list \<Rightarrow> bool" where
  "desc ps = sorted_wrt (\<lambda>a b. fst b \<le> fst a) ps"

section \<open>Configuration and collaborators\<close>

text \<open>The options of \<open>args\<close> that the decoding code reads.\<close>

record args =
  block_lm :: bool
  no_block_position :: bool
  task_mask :: bool
  num_beams :: int
  out_seq_length :: int
  max_sequence_length :: int
  mem_length :: int
  temperature :: real
  top_k :: int
  top_p :: real
  length_penalty :: real
  eod_token :: int

text \<open>The tokenizer is an external collaborator: its three operations are parameters.\<close>

record tokenizer =
  EncodeAsIds :: "string \<Rightarrow> int list"
  DecodeIds :: "int list \<Rightarrow> string"
  get_command :: "string \<Rightarrow> int"

text \<open>
  Token tensors are lists of rows.  Position ids are one index per token (\<open>Pos1\<close>, one
  row per sequence) or a pair of rows (absolute index, block offset) per sequence
  (\<open>Pos2\<close>).  An attention mask built by this code is all ones or all zeros, so the model
  keeps its shape only.
\<close>

datatype position_ids = Pos1 "int list list" | Pos2 "(int list \<times> int list) list"

datatype attention_mask = Ones "int list" | Zeros "int list"

text \<open>The result of \<open>beam_scorer.process\<close>.\<close>

record beam_outputs =
  next_beam_scores :: "real list"
  next_beam_tokens :: "int list"
  next_beam_indices :: "nat list"

text \<open>
  The collaborators of the decoding loop.  \<open>'c\<close> is one hypothesis' slice of one cache
  layer, so a cache layer is a \<open>'c list\<close> (one slice per beam) and \<open>mems\<close> a list of
  layers; \<open>'g\<close> is the state of the random generator that \<open>torch.multinomial\<close> reads and
  advances; \<open>'b\<close> is the state of a beam scorer object.  The forward pass returns the
  logits (sequences \<times> positions \<times> vocabulary, finite scores) and the new cache layers.
  \<open>arith\<close> is the arithmetic of the tensors.  \<open>process\<close>, \<open>is_done\<close> and \<open>finalize\<close> are
  the methods that the loop calls on the object \<open>beam_scorer\<close>.  The file neither imports
  nor defines the class \<open>BeamSearchScorer\<close>, so no such object is ever made (see
  \<open>sample_sequence\<close>).
\<close>

record ('c, 'g, 'b) env =
  model :: "int list list \<Rightarrow> position_ids \<Rightarrow> attention_mask \<Rightarrow> 'c list list
              \<Rightarrow> error + (real list list list \<times> 'c list list)"
  multinomial :: "'g \<Rightarrow> real list list \<Rightarrow> int \<Rightarrow> error + (nat list list \<times> 'g)"
  arith :: kernel
  process :: "'b \<Rightarrow> int list list \<Rightarrow> real list \<Rightarrow> nat list \<Rightarrow> nat list \<Rightarrow> int list
                \<Rightarrow> 'c list list option \<Rightarrow> error + (beam_outputs \<times> 'b)"
  is_done :: "'b \<Rightarrow> bool"
  finalize :: "'b \<Rightarrow> int list list \<Rightarrow> real list \<Rightarrow> nat list \<Rightarrow> nat list \<Rightarrow> int
                 \<Rightarrow> 'c list list option \<Rightarrow> error + (int list list \<times> 'c list list option)"

section \<open>get\_batch\<close>

text \<open>
  \<open>get_batch(context_tokens, device, args)\<close>: the tokens as one row, a full mask of ones
  and the positions \<open>0..n-1\<close>, paired with a row of zero block offsets unless
  \<open>no_block_position\<close>.  Outside block mode it raises.
\<close>

definition get_batch ::
  "int list \<Rightarrow> 'a args_scheme \<Rightarrow> error + (int list list \<times> attention_mask \<times> position_ids)" where
  "get_batch context_tokens a =
     (let tokens = [context_tokens]; n = int (length context_tokens)
      in if block_lm a then
           Inr (tokens, Ones [1, 1, n, n],
                if \<not> no_block_position a
                then Pos2 [(map int [0..<length context_tokens],
                            replicate (length context_tokens) 0)]
                else Pos1 [map int [0..<length context_tokens]])
         else Inl NotImplementedError)"

section \<open>sample\_sequence\<close>

text \<open>
  The variables of the decoding loop that change from one iteration to the next.  A
  variable that is not bound is \<open>None\<close>.
\<close>

record ('c, 'g, 'b) loop_state =
  tokens :: "int list list"
  mems :: "'c list list option"
  rng :: 'g
  last_beam_num :: int
  beam_scorer :: "'b option"
  beam_scores :: "real list option"
  next_tokens :: "nat list option"
  next_indices :: "nat list option"

datatype 'a control = Break 'a | Continue 'a

text \<open>How a run of a generator ends: its loop stopped, a pass raised, or it can yield more.\<close>

datatype gen_end = Stopped | Raised error | Running

text \<open>\<open>torch.cat((a, b), dim=1)\<close>: row-wise concatenation; the row counts must agree.\<close>

definition cat_dim1 :: "int list list \<Rightarrow> int list list \<Rightarrow> error + int list list" where
  "cat_dim1 a b = (if length a = length b then Inr (map2 (@) a b) else Inl RuntimeError)"

text \<open>\<open>logits[:, -1]\<close>: the scores at the last position of every sequence.\<close>

definition last_position :: "real list list list \<Rightarrow> error + real list list" where
  "last_position logits = mapE (\<lambda>seq. if seq = [] then Inl IndexError else Inr (last seq)) logits"

text \<open>
  Lines 155--172: the forward pass of one iteration.  In block mode the position ids are
  \<open>context_length + counter\<close>, or the pair \<open>(context_length, counter + 1)\<close>, for each live
  beam, and the mask is the single zero.  Outside block mode the first iteration runs on
  the whole context with the inputs of \<open>get_batch\<close>.  Unpacking \<open>*mems\<close> fails when
  \<open>mems\<close> is \<open>None\<close>.
\<close>

definition forward_step ::
  "('c, 'g, 'b) env \<Rightarrow> 'a args_scheme \<Rightarrow> int list list \<Rightarrow> int
     \<Rightarrow> (attention_mask \<times> position_ids) option \<Rightarrow> int \<Rightarrow> ('c, 'g, 'b) loop_state
     \<Rightarrow> error + (real list list \<times> 'c list list)" where
  "forward_step e a context_tokens context_length first counter st =
     (case mems st of
        None \<Rightarrow> Inl TypeError
      | Some ms \<Rightarrow>
          bindE
            (if counter = 0 \<and> \<not> block_lm a then
               (case first of
                  None \<Rightarrow> Inl NotImplementedError
                | Some (attention_mask, position_ids) \<Rightarrow>
                    model e context_tokens position_ids attention_mask ms)
             else
               (let beams = nat (last_beam_num st);
                    last_token = map (\<lambda>row. if row = [] then [] else [last row]) (tokens st)
                in if block_lm a then
                     model e last_token
                       (if no_block_position a
                        then Pos1 (replicate beams [context_length + counter])
                        else Pos2 (replicate beams ([context_length], [counter + 1])))
                       (Zeros [1]) ms
                   else
                     model e last_token
                       (Pos1 (replicate beams [context_length + counter - 1]))
                       (Ones [last_beam_num st, 1, 1, mem_length a + 1]) ms))
            (\<lambda>(next_token_logits, ms').
               bindE (last_position next_token_logits) (\<lambda>l. Inr (l, ms'))))"

text \<open>
  Line 210: \<open>torch.multinomial(probs, num_samples=1)[0]\<close> and \<open>prev.item()\<close>: the draw for
  the first row, which must hold one index.
\<close>

definition draw_token ::
  "('c, 'g, 'b) env \<Rightarrow> 'g \<Rightarrow> real list list \<Rightarrow> error + (int \<times> 'g)" where
  "draw_token e g probs =
     bindE (multinomial e g probs 1)
       (\<lambda>(samples, g').
          case samples of
            [] \<Rightarrow> Inl IndexError
          | prev # _ \<Rightarrow> (case prev of [t] \<Rightarrow> Inr (int t, g') | _ \<Rightarrow> Inl ValueError))"

text \<open>Line 207: \<open>next_token_logits /= args.temperature\<close>.\<close>

definition scale_logits :: "kernel \<Rightarrow> real \<Rightarrow> real list \<Rightarrow> logit list" where
  "scale_logits K t row = map (\<lambda>x. Fin (divide_op K x t)) row"

text \<open>
  Lines 207--210: temperature, \<open>top_k_logits\<close>, softmax and one multinomial draw; the
  result is \<open>prev.item()\<close> and the advanced generator.  Nothing validates the
  temperature or \<open>top_p\<close>.  Dividing by a zero temperature leaves only infinities and
  NaN: \<open>top_k_logits\<close> still raises what the shapes of the rows make it raise, and
  otherwise the probabilities are NaN and \<open>torch.multinomial\<close> rejects them.
\<close>

definition sample_token ::
  "('c, 'g, 'b) env \<Rightarrow> 'a args_scheme \<Rightarrow> real list list \<Rightarrow> 'g \<Rightarrow> error + (int \<times> 'g)" where
  "sample_token e a next_token_logits g =
     bindE (top_k_logits (arith e)
              (map (scale_logits (arith e) (temperature a)) next_token_logits)
              (top_k a) (top_p a) NegInf)
       (\<lambda>logits. if temperature a = 0 then Inl RuntimeError
                 else draw_token e g (map (softmax_op (arith e)) logits))"

text \<open>
  Lines 207--215: the single-sequence branch.  A sampled end token stops the loop before
  the token is appended; any other token is appended to the one row of \<open>tokens\<close>.
\<close>

definition single_step ::
  "('c, 'g, 'b) env \<Rightarrow> 'a args_scheme \<Rightarrow> int list \<Rightarrow> real list list \<Rightarrow> 'c list list
     \<Rightarrow> ('c, 'g, 'b) loop_state \<Rightarrow> error + ('c, 'g, 'b) loop_state control" where
  "single_step e a end_tokens next_token_logits ms st =
     bindE (sample_token e a next_token_logits (rng st))
       (\<lambda>(prev, g').
          let st1 = st\<lparr>mems := Some ms, rng := g'\<rparr>
          in if prev \<in> set end_tokens then Inr (Break st1)
             else bindE (cat_dim1 (tokens st1) [[prev]])
                    (\<lambda>tokens'. Inr (Continue (st1\<lparr>tokens := tokens'\<rparr>))))"

text \<open>\<open>xs[idx]\<close> with a tensor of indices: the rows of \<open>xs\<close> at the positions \<open>idx\<close>.\<close>

definition index_select :: "'a list \<Rightarrow> nat list \<Rightarrow> error + 'a list" where
  "index_select xs idx =
     (if \<forall>i \<in> set idx. i < length xs then Inr (map (\<lambda>i. xs ! i) idx) else Inl IndexError)"

text \<open>Line 202: \<open>[mem[beam_idx] for mem in mems] if mems else None\<close>.\<close>

definition reorder_mems :: "'c list list \<Rightarrow> nat list \<Rightarrow> error + 'c list list option" where
  "reorder_mems ms beam_idx =
     (if ms = [] then Inr None
      else bindE (mapE (\<lambda>mem. index_select mem beam_idx) ms) (\<lambda>ms'. Inr (Some ms')))"

text \<open>
  Line 201: \<open>torch.cat([tokens[beam_idx, :], beam_next_tokens.unsqueeze(-1)], dim=-1)\<close>.
\<close>

definition reorder_tokens :: "int list list \<Rightarrow> nat list \<Rightarrow> int list \<Rightarrow> error + int list list" where
  "reorder_tokens toks beam_idx beam_next_tokens =
     bindE (index_select toks beam_idx)
       (\<lambda>rows. cat_dim1 rows (map (\<lambda>t. [t]) beam_next_tokens))"

text \<open>
  \<open>scores + beam_scores[:, None].expand_as(scores)\<close>: one score per row, or a single
  score for all rows.
\<close>

definition add_beam_scores ::
  "kernel \<Rightarrow> real list list \<Rightarrow> real list \<Rightarrow> error + real list list" where
  "add_beam_scores K rows bs =
     (if length bs = length rows
      then Inr (map2 (\<lambda>row b. map (\<lambda>x. add_op K x b) row) rows bs)
      else if length bs = 1 then Inr (map (map (\<lambda>x. add_op K x (hd bs))) rows)
      else Inl RuntimeError)"

text \<open>\<open>tokens.expand((num_beams, -1))\<close>.\<close>

definition expand_rows :: "int list list \<Rightarrow> int \<Rightarrow> error + int list list" where
  "expand_rows toks n =
     (if int (length toks) = n then Inr toks
      else if length toks = 1 then Inr (replicate (nat n) (hd toks))
      else Inl RuntimeError)"

text \<open>
  Lines 174--186: the candidates of the beam branch.  The scores of all live beams are
  flattened, \<open>2 * num_beams\<close> candidates are drawn and sorted by score, and each is split
  into the beam it extends and its token.  The result is \<open>next_token_scores\<close>,
  \<open>next_tokens\<close>, \<open>next_indices\<close> and the advanced generator.
\<close>

definition beam_candidates ::
  "('c, 'g, 'b) env \<Rightarrow> 'a args_scheme \<Rightarrow> real list list \<Rightarrow> ('c, 'g, 'b) loop_state
     \<Rightarrow> error + (real list \<times> nat list \<times> nat list \<times> 'g)" where
  "beam_candidates e a next_token_logits st =
     (case beam_scores st of
        None \<Rightarrow> Inl UnboundLocalError
      | Some bs \<Rightarrow>
          bindE (add_beam_scores (arith e)
                   (map (log_softmax_op (arith e)) next_token_logits) bs)
            (\<lambda>scores.
               let vocab_size = (case scores of [] \<Rightarrow> 0 | row # _ \<Rightarrow> length row);
                   flat = concat scores
               in if int (length flat) \<noteq> last_beam_num st * int vocab_size
                  then Inl RuntimeError
                  else
                    bindE (multinomial e (rng st) [softmax_op (arith e) (map Fin flat)]
                             (2 * num_beams a))
                      (\<lambda>(samples, g').
                         case samples of
                           [drawn] \<Rightarrow>
                             if (\<exists>i \<in> set drawn. length flat \<le> i) \<or> vocab_size = 0
                             then Inl RuntimeError
                             else
                               (let sorted = sort_desc (map (\<lambda>i. flat ! i) drawn);
                                    picked = map (\<lambda>j. drawn ! j) (map snd sorted)
                                in Inr (map fst sorted,
                                        map (\<lambda>t. t mod vocab_size) picked,
                                        map (\<lambda>t. t div vocab_size) picked, g'))
                         | _ \<Rightarrow> Inl RuntimeError)))"

text \<open>
  Lines 188--205: the scorer picks the survivors among the candidates, and both the token
  rows and every cache layer are gathered along \<open>beam_idx\<close>.
\<close>

definition beam_select ::
  "('c, 'g, 'b) env \<Rightarrow> 'a args_scheme \<Rightarrow> int list \<Rightarrow> 'c list list
     \<Rightarrow> ('c, 'g, 'b) loop_state \<Rightarrow> real list \<times> nat list \<times> nat list \<times> 'g
     \<Rightarrow> error + ('c, 'g, 'b) loop_state control" where
  "beam_select e a end_tokens ms st cand =
     (case cand of (next_token_scores, next_tok, next_idx, g') \<Rightarrow>
        bindE (expand_rows (tokens st) (num_beams a))
          (\<lambda>toks.
             case beam_scorer st of
               None \<Rightarrow> Inl UnboundLocalError
             | Some scorer \<Rightarrow>
                 bindE (process e scorer toks next_token_scores next_tok next_idx
                          end_tokens (Some ms))
                   (\<lambda>(outs, scorer').
                      let beam_idx = next_beam_indices outs
                      in bindE (reorder_tokens toks beam_idx (next_beam_tokens outs))
                           (\<lambda>toks'.
                              bindE (reorder_mems ms beam_idx)
                                (\<lambda>mems'.
                                   let st' = st\<lparr>tokens := toks', mems := mems', rng := g',
                                                 beam_scorer := Some scorer',
                                                 beam_scores := Some (next_beam_scores outs),
                                                 next_tokens := Some next_tok,
                                                 next_indices := Some next_idx\<rparr>
                                   in if is_done e scorer' then Inr (Break st')
                                      else Inr (Continue
                                                  (st'\<lparr>last_beam_num := num_beams a\<rparr>)))))))"

definition beam_step ::
  "('c, 'g, 'b) env \<Rightarrow> 'a args_scheme \<Rightarrow> int list \<Rightarrow> real list list \<Rightarrow> 'c list list
     \<Rightarrow> ('c, 'g, 'b) loop_state \<Rightarrow> error + ('c, 'g, 'b) loop_state control" where
  "beam_step e a end_tokens next_token_logits ms st =
     bindE (beam_candidates e a next_token_logits st) (beam_select e a end_tokens ms st)"

text \<open>One iteration of the loop (lines 155--215).\<close>

definition loop_body ::
  "('c, 'g, 'b) env \<Rightarrow> 'a args_scheme \<Rightarrow> int list list \<Rightarrow> int
     \<Rightarrow> (attention_mask \<times> position_ids) option \<Rightarrow> int list \<Rightarrow> int
     \<Rightarrow> ('c, 'g, 'b) loop_state \<Rightarrow> error + ('c, 'g, 'b) loop_state control" where
  "loop_body e a context_tokens context_length first end_tokens counter st =
     bindE (forward_step e a context_tokens context_length first counter st)
       (\<lambda>(next_token_logits, ms).
          if num_beams a > 1 then beam_step e a end_tokens next_token_logits ms st
          else single_step e a end_tokens next_token_logits ms st)"

text \<open>
  The loop \<open>while counter < args.out_seq_length\<close> (lines 154--216).  The progress
  printing of lines 217--223 changes no variable of the loop and is left out.
\<close>

function sample_loop ::
  "('c, 'g, 'b) env \<Rightarrow> 'a args_scheme \<Rightarrow> int list list \<Rightarrow> int
     \<Rightarrow> (attention_mask \<times> position_ids) option \<Rightarrow> int list \<Rightarrow> int
     \<Rightarrow> ('c, 'g, 'b) loop_state \<Rightarrow> error + ('c, 'g, 'b) loop_state" where
  "sample_loop e a context_tokens context_length first end_tokens counter st =
     (if counter < out_seq_length a then
        (case loop_body e a context_tokens context_length first end_tokens counter st of
           Inl err \<Rightarrow> Inl err
         | Inr (Break st') \<Rightarrow> Inr st'
         | Inr (Continue st') \<Rightarrow>
             sample_loop e a context_tokens context_length first end_tokens (counter + 1) st')
      else Inr st)"
  by pat_completeness auto
termination
  by (relation "measure (\<lambda>(e, a, ct, cl, first, et, counter, st). nat (out_seq_length a - counter))")
    auto

declare sample_loop.simps [simp del]

text \<open>
  \<open>sample_sequence(model, tokenizer, context_tokens, context_length, args, device, mems,
  end_tokens)\<close>, with the generator state made explicit.  In block mode the generated
  row starts with the \<open>sop\<close> token; outside block mode \<open>get_batch\<close> is called first.  With
  more than one beam, line 144 calls \<open>BeamSearchScorer\<close>, a name that the file neither
  imports nor defines: the call raises NameError, so the loop only ever runs with one
  beam, and \<open>beam_scorer\<close> and \<open>beam_scores\<close> are never bound.  The result is the context
  followed by the generated row, and the cache.
\<close>

definition sample_sequence ::
  "('c, 'g, 'b) env \<Rightarrow> tokenizer \<Rightarrow> int list list \<Rightarrow> int \<Rightarrow> 'a args_scheme
     \<Rightarrow> 'c list list option \<Rightarrow> int list option \<Rightarrow> 'g
     \<Rightarrow> error + (int list list \<times> 'c list list option \<times> 'g)" where
  "sample_sequence e tok context_tokens context_length a mems0 end_tokens0 g =
     bindE
       (if \<not> block_lm a then
          bindE (get_batch (concat context_tokens) a)
            (\<lambda>(ct, attention_mask, position_ids).
               Inr (ct, Some (attention_mask, position_ids), replicate (nat (num_beams a)) []))
        else Inr (context_tokens, None, [[get_command tok ''sop'']]))
       (\<lambda>(context_tokens, first, tokens0).
          let ms = (case mems0 of None \<Rightarrow> [] | Some m \<Rightarrow> m);
              end_tokens = (case end_tokens0 of None \<Rightarrow> [eod_token a] | Some et \<Rightarrow> et);
              st0 = \<lparr>tokens = tokens0, mems = Some ms, rng = g, last_beam_num = 1,
                     beam_scorer = None, beam_scores = None, next_tokens = None,
                     next_indices = None\<rparr>
          in if num_beams a > 1 then Inl NameError
             else
               bindE (sample_loop e a context_tokens context_length first end_tokens 0 st0)
                 (\<lambda>st.
                    bindE
                      (if num_beams a > 1 then
                         (case (beam_scorer st, beam_scores st, next_tokens st,
                                next_indices st) of
                            (Some scorer, Some bs, Some nt, Some ni) \<Rightarrow>
                              finalize e scorer (tokens st) bs nt ni (eod_token a) (mems st)
                          | _ \<Rightarrow> Inl UnboundLocalError)
                       else Inr (tokens st, mems st))
                      (\<lambda>(toks, ms').
                         bindE (cat_dim1 context_tokens toks)
                           (\<lambda>out. Inr (out, ms', rng st)))))"

section \<open>generate\_samples\<close>

text \<open>
  Lines 247--253: the positions of the mask tokens in the context, collected mask id by
  mask id and then sorted.
\<close>

definition mask_positions :: "tokenizer \<Rightarrow> 'a args_scheme \<Rightarrow> int list \<Rightarrow> nat list" where
  "mask_positions tok a context_tokens =
     (let mask_tokens = (if task_mask a then [''MASK'', ''sMASK'', ''gMASK''] else [''MASK''])
      in sort (concat (map (\<lambda>name. filter (\<lambda>i. context_tokens ! i = get_command tok name)
                                       [0..<length context_tokens])
                           mask_tokens)))"

text \<open>
  Line 256: \<open>position_ids[0, k:] += d\<close>.  On the one-row positions of
  \<open>no_block_position\<close> the slice runs over the tokens; on paired positions it would run
  over the two rows of the pair.
\<close>

fun shift_positions :: "position_ids \<Rightarrow> nat \<Rightarrow> int \<Rightarrow> error + position_ids" where
  "shift_positions (Pos1 []) k d = Inl IndexError"
| "shift_positions (Pos1 (row # rows)) k d =
     Inr (Pos1 ((take k row @ map (\<lambda>x. x + d) (drop k row)) # rows))"
| "shift_positions (Pos2 []) k d = Inl IndexError"
| "shift_positions (Pos2 ((ab, bl) # rows)) k d =
     Inr (Pos2 ((if k = 0 then map (\<lambda>x. x + d) ab else ab,
                 if k \<le> 1 then map (\<lambda>x. x + d) bl else bl) # rows))"

fun shift_all :: "position_ids \<Rightarrow> nat list \<Rightarrow> int \<Rightarrow> error + position_ids" where
  "shift_all pos [] d = Inr pos"
| "shift_all pos (mp # mps) d =
     bindE (shift_positions pos (mp + 1) d) (\<lambda>pos'. shift_all pos' mps d)"

text \<open>Line 260: \<open>position_ids[0, mask_position].item()\<close>.\<close>

fun position_item :: "position_ids \<Rightarrow> nat \<Rightarrow> error + int" where
  "position_item (Pos1 (row # rows)) mp = (if mp < length row then Inr (row ! mp) else Inl IndexError)"
| "position_item (Pos1 []) mp = Inl IndexError"
| "position_item (Pos2 rows) mp = Inl ValueError"

text \<open>
  Lines 258--264: one call of \<open>sample_sequence\<close> per mask position, each on the tokens
  and the cache that the previous call returned.
\<close>

fun infill ::
  "('c, 'g, 'b) env \<Rightarrow> tokenizer \<Rightarrow> 'a args_scheme \<Rightarrow> position_ids \<Rightarrow> int list \<Rightarrow> nat list
     \<Rightarrow> int list list \<times> 'c list list option \<times> 'g
     \<Rightarrow> error + (int list list \<times> 'c list list option \<times> 'g)" where
  "infill e tok a position_ids end_tokens [] s = Inr s"
| "infill e tok a position_ids end_tokens (mask_position # rest) (toks, ms, g) =
     bindE (if no_block_position a then position_item position_ids mask_position
            else Inr (int mask_position))
       (\<lambda>position.
          bindE (sample_sequence e tok toks position a ms (Some end_tokens) g)
            (\<lambda>s'. infill e tok a position_ids end_tokens rest s'))"

text \<open>
  One round of \<open>generate_samples\<close> after \<open>read_context\<close> has returned a context (lines
  244--267): the result is \<open>output_tokens_list\<close>.  The timing, the printing and the
  transcript file are left out.
\<close>

definition generate_round ::
  "('c, 'g, 'b) env \<Rightarrow> tokenizer \<Rightarrow> 'a args_scheme \<Rightarrow> int list \<Rightarrow> int \<Rightarrow> 'g
     \<Rightarrow> error + (int list \<times> 'g)" where
  "generate_round e tok a context_tokens_tensor context_length g =
     (if block_lm a then
        bindE (get_batch context_tokens_tensor a)
          (\<lambda>(toks, attention_mask, position_ids).
             let mps = mask_positions tok a context_tokens_tensor;
                 end_tokens = [get_command tok ''eop'', eod_token a]
             in bindE (if no_block_position a
                       then shift_all position_ids mps (out_seq_length a)
                       else Inr position_ids)
                  (\<lambda>position_ids'.
                     bindE (model e toks position_ids' attention_mask [])
                       (\<lambda>(logits, ms).
                          bindE (infill e tok a position_ids' end_tokens mps (toks, Some ms, g))
                            (\<lambda>(toks', ms', g'). Inr (concat toks', g')))))
      else
        bindE (sample_sequence e tok [context_tokens_tensor] context_length a None None g)
          (\<lambda>(toks', ms', g'). Inr (concat toks', g')))"

section \<open>read\_context\<close>

text \<open>\<open>sub in s\<close> and \<open>s.endswith(suffix)\<close> on strings.\<close>

fun contains :: "string \<Rightarrow> string \<Rightarrow> bool" where
  "contains sub [] = (sub = [])"
| "contains sub (c # s) = (take (length sub) (c # s) = sub \<or> contains sub s)"

definition endswith :: "string \<Rightarrow> string \<Rightarrow> bool" where
  "endswith s suffix = (length suffix \<le> length s \<and> drop (length s - length suffix) s = suffix)"

text \<open>
  The local variables of \<open>read_context\<close> on one rank when the broadcasts start.  A
  variable that is not bound on that rank is \<open>None\<close>.
\<close>

record locals =
  terminate_runs :: int
  raw_text :: "string option"
  context_tokens :: "int list option"
  context_length :: "int option"

text \<open>
  Lines 39--48: the text and the token ids of an accepted line.  In block mode a prompt
  without \<open>MASK]\<close> gets the generation mask appended, the ids start with \<open>ENC\<close>, and
  \<open>eos\<close> is added unless the text ends with \<open>MASK]\<close>.
\<close>

definition encode_prompt :: "tokenizer \<Rightarrow> 'a args_scheme \<Rightarrow> string \<Rightarrow> string \<times> int list" where
  "encode_prompt tok a line =
     (let generation_mask = (if task_mask a then ''[gMASK]'' else ''[MASK]'');
          prompt = (if block_lm a \<and> \<not> contains ''MASK]'' line
                    then line @ '' '' @ generation_mask else line);
          ids = EncodeAsIds tok prompt
      in (prompt,
          if block_lm a
          then (let ids' = get_command tok ''ENC'' # ids
                in if \<not> endswith prompt ''MASK]''
                   then ids' @ [get_command tok ''eos''] else ids')
          else ids))"

text \<open>
  Lines 31--55, on rank 0: the prompt loop, reading the lines that the user types.  An
  empty line and a context that is too long are rejected and the next line is read;
  \<open>stop\<close> ends the session.  At the end of the input, \<open>input\<close> raises EOFError.  The
  result also holds the lines not yet read.
\<close>

fun prompt_loop :: "tokenizer \<Rightarrow> 'a args_scheme \<Rightarrow> string list \<Rightarrow> error + (locals \<times> string list)" where
  "prompt_loop tok a [] = Inl EOFError"
| "prompt_loop tok a (line # rest) =
     (if line = [] then prompt_loop tok a rest
      else if line = ''stop'' then
        Inr (\<lparr>terminate_runs = 1, raw_text = Some line, context_tokens = None,
              context_length = None\<rparr>, rest)
      else
        (case encode_prompt tok a line of
           (prompt, ids) \<Rightarrow>
             if int (length ids) \<ge> max_sequence_length a then prompt_loop tok a rest
             else Inr (\<lparr>terminate_runs = 0, raw_text = Some prompt, context_tokens = Some ids,
                        context_length = Some (int (length ids))\<rparr>, rest)))"

text \<open>Lines 29--57 on every rank of the model-parallel group.\<close>

definition rank_locals :: "locals \<Rightarrow> nat \<Rightarrow> locals" where
  "rank_locals prompt rank =
     (if rank = 0 then prompt
      else \<lparr>terminate_runs = 0, raw_text = None, context_tokens = None,
            context_length = Some 0\<rparr>)"

text \<open>
  \<open>torch.distributed.broadcast(tensor, src)\<close> over the group: one buffer per rank, and
  afterwards every buffer holds the content of the source's.  All buffers must have the
  shape of the source's.
\<close>

definition broadcast :: "int list list \<Rightarrow> nat \<Rightarrow> error + int list list" where
  "broadcast buffers src =
     (if src < length buffers \<and> (\<forall>b \<in> set buffers. length b = length (buffers ! src))
      then Inr (map (\<lambda>b. buffers ! src) buffers)
      else Inl RuntimeError)"

text \<open>What one rank returns: \<open>(terminate_runs, raw_text, context_tokens_tensor, context_length)\<close>.\<close>

type_synonym rank_result = "int \<times> string option \<times> int list option \<times> int option"

text \<open>
  \<open>read_context\<close> run by all \<open>world\<close> ranks of the group, rank 0 reading the prompt
  (lines 59--80).  The ranks meet at each broadcast; the result holds what every rank
  returns, the payloads of the broadcasts in the order they happened, and the input not
  yet read.  A rank that returns after the first broadcast while another one goes on to
  the second would leave that broadcast without a partner.
\<close>

definition read_context ::
  "tokenizer \<Rightarrow> 'a args_scheme \<Rightarrow> nat \<Rightarrow> string list
     \<Rightarrow> error + (rank_result list \<times> int list list \<times> string list)" where
  "read_context tok a world stdin =
     bindE (prompt_loop tok a stdin)
       (\<lambda>(prompt, rest).
          let ls = map (rank_locals prompt) [0..<world]
          in bindE (broadcast (map (\<lambda>l. [terminate_runs l]) ls) 0)
               (\<lambda>flags.
                  if \<forall>f \<in> set flags. hd f = 1 then
                    Inr (map (\<lambda>f. (hd f, None, None, None)) flags, [flags ! 0], rest)
                  else if \<exists>f \<in> set flags. hd f = 1 then Inl RuntimeError
                  else
                    bindE (mapE (\<lambda>l. case context_length l of
                                        None \<Rightarrow> Inl UnboundLocalError
                                      | Some n \<Rightarrow> Inr [n]) ls)
                      (\<lambda>length_tensors.
                         bindE (broadcast length_tensors 0)
                           (\<lambda>lengths.
                              bindE (mapE (\<lambda>(rank, l, len).
                                             if rank = 0 then
                                               (case context_tokens l of
                                                  None \<Rightarrow> Inl UnboundLocalError
                                                | Some ids \<Rightarrow> Inr ids)
                                             else Inr (replicate (nat (hd len)) 0))
                                       (zip [0..<world] (zip ls lengths)))
                                (\<lambda>token_tensors.
                                   bindE (broadcast token_tensors 0)
                                     (\<lambda>toks.
                                        Inr (map (\<lambda>(rank, l, f, len, ids).
                                                    (hd f,
                                                     if rank \<noteq> 0 then Some (DecodeIds tok ids)
                                                     else raw_text l,
                                                     Some ids, Some (hd len)))
                                               (zip [0..<world]
                                                  (zip ls (zip flags (zip lengths toks)))),
                                             [flags ! 0, lengths ! 0, toks ! 0], rest)))))))"

section \<open>ChatModel\<close>

text \<open>
  \<open>ChatModel._reorder_cache(past, beam_idx)\<close>: every layer holds a key and a value
  tensor whose second dimension is the beam; \<open>index_select(1, beam_idx)\<close> gathers that
  dimension and raises a RuntimeError for an index out of range.
\<close>

definition index_select1 :: "'c list list \<Rightarrow> nat list \<Rightarrow> error + 'c list list" where
  "index_select1 t beam_idx =
     mapE (\<lambda>row. if \<forall>i \<in> set beam_idx. i < length row
                 then Inr (map (\<lambda>i. row ! i) beam_idx) else Inl RuntimeError) t"

definition reorder_cache ::
  "('c list list \<times> 'c list list) list \<Rightarrow> nat list
     \<Rightarrow> error + ('c list list \<times> 'c list list) list" where
  "reorder_cache past beam_idx =
     mapE (\<lambda>layer_past.
             bindE (index_select1 (fst layer_past) beam_idx)
               (\<lambda>k. bindE (index_select1 (snd layer_past) beam_idx) (\<lambda>v. Inr (k, v))))
       past"

text \<open>
  The collaborators of \<open>stream_generate\<close>: \<open>prepare_inputs_for_generation\<close> and the forward
  call, the logits processor and warper, the stopping criteria and the update of the
  model arguments.  \<open>'kw\<close> is the dictionary \<open>model_kwargs\<close>, \<open>'i\<close> the prepared inputs,
  \<open>'o\<close> the output of the forward call, \<open>'g\<close> the state of the random generator.
\<close>

record ('kw, 'i, 'o, 'g) chat_env =
  prepare_inputs_for_generation :: "int list list \<Rightarrow> 'kw \<Rightarrow> error + 'i"
  forward :: "'i \<Rightarrow> error + (real list list list \<times> 'o)"
  logits_processor :: "int list list \<Rightarrow> logit list list \<Rightarrow> logit list list"
  logits_warper :: "int list list \<Rightarrow> logit list list \<Rightarrow> logit list list"
  stopping_criteria :: "int list list \<Rightarrow> bool"
  update_model_kwargs :: "'o \<Rightarrow> 'kw \<Rightarrow> 'kw"
  chat_multinomial :: "'g \<Rightarrow> real list list \<Rightarrow> int \<Rightarrow> error + (nat list list \<times> 'g)"

record generation_config =
  do_sample :: bool
  eos_token_id :: "int list"

text \<open>\<open>torch.argmax(row)\<close>: the index of the first maximal entry.\<close>

fun argmax_from :: "nat \<Rightarrow> real \<Rightarrow> nat \<Rightarrow> real list \<Rightarrow> nat" where
  "argmax_from best v i [] = best"
| "argmax_from best v i (x # xs) =
     (if v < x then argmax_from i x (i + 1) xs else argmax_from best v (i + 1) xs)"

definition argmax :: "real list \<Rightarrow> error + nat" where
  "argmax row = (case row of [] \<Rightarrow> Inl IndexError | x # xs \<Rightarrow> Inr (argmax_from 0 x 1 xs))"

record ('kw, 'g) chat_state =
  input_ids :: "int list list"
  model_kwargs :: 'kw
  unfinished_sequences :: "int list"
  chat_rng :: 'g

text \<open>
  Lines 339--343: the next token of every sequence, drawn from the probabilities when
  \<open>do_sample\<close> is set and their argmax otherwise.
\<close>

definition choose_next ::
  "('kw, 'i, 'o, 'g) chat_env \<Rightarrow> generation_config \<Rightarrow> real list list \<Rightarrow> 'g
     \<Rightarrow> error + (int list \<times> 'g)" where
  "choose_next e cfg probs g =
     (if do_sample cfg then
        bindE (chat_multinomial e g probs 1)
          (\<lambda>(samples, g').
             bindE (mapE (\<lambda>s. case s of [t] \<Rightarrow> Inr (int t) | _ \<Rightarrow> Inl RuntimeError) samples)
               (\<lambda>next_tokens. Inr (next_tokens, g')))
      else bindE (mapE argmax probs) (\<lambda>next_tokens. Inr (map int next_tokens, g)))"

text \<open>
  One pass of the loop \<open>while True\<close> of \<open>stream_generate\<close> (lines 323--355): \<open>Break\<close>
  when the loop stops, \<open>Continue\<close> when it yields the new \<open>input_ids\<close>.
\<close>

definition stream_step ::
  "('kw, 'i, 'o, 'g) chat_env \<Rightarrow> generation_config \<Rightarrow> ('kw, 'g) chat_state
     \<Rightarrow> error + ('kw, 'g) chat_state control" where
  "stream_step e cfg s =
     bindE (prepare_inputs_for_generation e (input_ids s) (model_kwargs s))
       (\<lambda>model_inputs.
          bindE (forward e model_inputs)
            (\<lambda>(logits, outputs).
               bindE (last_position logits)
                 (\<lambda>next_token_logits.
                    let next_token_scores =
                          logits_warper e (input_ids s)
                            (logits_processor e (input_ids s) (map (map Fin) next_token_logits));
                        probs = map softmax next_token_scores
                    in bindE (choose_next e cfg probs (chat_rng s))
                         (\<lambda>(next_tokens, g').
                            bindE (cat_dim1 (input_ids s) (map (\<lambda>t. [t]) next_tokens))
                              (\<lambda>ids'.
                                 let unfinished =
                                       map2 (\<lambda>u t. u * int (length (filter (\<lambda>i. t \<noteq> i)
                                                                      (eos_token_id cfg))))
                                         (unfinished_sequences s) next_tokens;
                                     s' = \<lparr>input_ids = ids',
                                           model_kwargs =
                                             update_model_kwargs e outputs (model_kwargs s),
                                           unfinished_sequences = unfinished, chat_rng = g'\<rparr>
                                 in if eos_token_id cfg = [] then Inl AttributeError
                                    else if unfinished = [] then Inl RuntimeError
                                    else if Max (set unfinished) = 0
                                            \<or> stopping_criteria e ids'
                                    then Inr (Break s') else Inr (Continue s'))))))"

text \<open>
  \<open>stream_generate\<close> is a generator and its loop need not end.  The model runs it for at
  most \<open>n\<close> passes and returns the values yielded so far and how the run ended.
\<close>

fun stream_loop ::
  "('kw, 'i, 'o, 'g) chat_env \<Rightarrow> generation_config \<Rightarrow> nat \<Rightarrow> ('kw, 'g) chat_state
     \<Rightarrow> int list list list \<times> gen_end" where
  "stream_loop e cfg 0 s = ([], Running)"
| "stream_loop e cfg (Suc n) s =
     (case stream_step e cfg s of
        Inl err \<Rightarrow> ([], Raised err)
      | Inr (Break s') \<Rightarrow> ([], Stopped)
      | Inr (Continue s') \<Rightarrow>
          (let (ys, r) = stream_loop e cfg n s' in (input_ids s' # ys, r)))"

definition stream_generate ::
  "('kw, 'i, 'o, 'g) chat_env \<Rightarrow> generation_config \<Rightarrow> nat \<Rightarrow> int list list \<Rightarrow> 'kw \<Rightarrow> 'g
     \<Rightarrow> int list list list \<times> gen_end" where
  "stream_generate e cfg n ids kw g =
     stream_loop e cfg n
       \<lparr>input_ids = ids, model_kwargs = kw,
        unfinished_sequences = replicate (length ids) 1, chat_rng = g\<rparr>"

section \<open>Test collaborators\<close>

text \<open>
  Collaborators for concrete runs.  The generator state is a tape of draws: each call of
  \<open>multinomial\<close> returns the next entry of the tape for every row.  The forward pass
  returns two equal scores at one position for every sequence and a one-layer cache.
  The arithmetic is the exact one: on two equal scores every value that the
  single-sequence branch computes is a binary fraction, which floating point holds
  exactly.
\<close>

definition tape_env :: "(unit, nat list, unit) env" where
  "tape_env =
     \<lparr>model = (\<lambda>toks position_ids attention_mask ms.
                 Inr (map (\<lambda>row. [[0, 0]]) toks, [map (\<lambda>row. ()) toks])),
      multinomial = (\<lambda>g probs n.
                       case g of [] \<Rightarrow> Inl RuntimeError
                       | t # g' \<Rightarrow> Inr (map (\<lambda>row. replicate (nat n) t) probs, g')),
      arith = exact_kernel,
      process = (\<lambda>b toks scores next_tok next_idx end_tokens ms. Inl RuntimeError),
      is_done = (\<lambda>b. True),
      finalize = (\<lambda>b toks scores next_tok next_idx eos ms. Inl RuntimeError)\<rparr>"

definition test_tokenizer :: tokenizer where
  "test_tokenizer =
     \<lparr>EncodeAsIds = map (\<lambda>c. int (of_char c)),
      DecodeIds = map (\<lambda>i. char_of (nat i)),
      get_command = (\<lambda>name. if name = ''sop'' then 1 else if name = ''eop'' then 3
                             else if name = ''eos'' then 4 else if name = ''ENC'' then 6
                             else if name = ''MASK'' then 8 else if name = ''sMASK'' then 9
                             else 10)\<rparr>"

definition test_args :: args where
  "test_args =
     \<lparr>block_lm = True, no_block_position = False, task_mask = False, num_beams = 1,
      out_seq_length = 4, max_sequence_length = 512, mem_length = 0, temperature = 1,
      top_k = 0, top_p = 0, length_penalty = 0, eod_token = 0\<rparr>"

text \<open>The state in which the loop starts in block mode, with \<open>sop = 1\<close> and a given tape.\<close>

definition test_state :: "nat list \<Rightarrow> (unit, nat list, unit) loop_state" where
  "test_state tape =
     \<lparr>tokens = [[1]], mems = Some [], rng = tape, last_beam_num = 1, beam_scorer = None,
      beam_scores = None, next_tokens = None, next_indices = None\<rparr>"

text \<open>
  Collaborators for a concrete beam step with two beams over a vocabulary of two tokens.
  A cache slice is a number, so that a gather shows.  The generator state is a tape of
  draws, each the list of flat candidate indices that one call of \<open>multinomial\<close> returns.
  The scorer keeps the first \<open>num_beams\<close> candidates and is never done.  The scores
  are those of the exact arithmetic; they enter the step only through the order of the
  candidates, and four equal scores leave the candidates in the order of the draw.
\<close>

definition beam_env :: "(nat, nat list list, unit) env" where
  "beam_env =
     \<lparr>model = (\<lambda>toks position_ids attention_mask ms. Inl RuntimeError),
      multinomial = (\<lambda>g probs n.
                       case g of [] \<Rightarrow> Inl RuntimeError
                       | d # g' \<Rightarrow> if int (length d) = n then Inr (map (\<lambda>row. d) probs, g')
                                  else Inl RuntimeError),
      arith = exact_kernel,
      process = (\<lambda>b toks scores next_tok next_idx end_tokens ms.
                   Inr (\<lparr>next_beam_scores = take 2 scores,
                         next_beam_tokens = map int (take 2 next_tok),
                         next_beam_indices = take 2 next_idx\<rparr>, ())),
      is_done = (\<lambda>b. False),
      finalize = (\<lambda>b toks scores next_tok next_idx eos ms. Inr ([hd toks], ms))\<rparr>"

definition beam_args :: args where
  "beam_args =
     \<lparr>block_lm = True, no_block_position = False, task_mask = False, num_beams = 2,
      out_seq_length = 4, max_sequence_length = 512, mem_length = 0, temperature = 1,
      top_k = 0, top_p = 0, length_penalty = 0, eod_token = 0\<rparr>"

text \<open>
  A state of the beam branch with two live beams, whose rows end in 10 and 11, and the
  draw of the candidates 2, 1, 0 and 3.
\<close>

definition beam_state :: "(nat, nat list list, unit) loop_state" where
  "beam_state =
     \<lparr>tokens = [[5, 10], [5, 11]], mems = Some [[100, 200]], rng = [[2, 1, 0, 3]],
      last_beam_num = 2, beam_scorer = Some (), beam_scores = Some [0, 0],
      next_tokens = None, next_indices = None\<rparr>"

text \<open>
  Collaborators for a concrete run of \<open>stream_generate\<close>: the forward pass returns two
  equal scores for every sequence, the processors change nothing, the stopping criteria
  never hold, and the generator is a tape of draws.
\<close>

definition chat_test_env :: "(unit, int list list, unit, nat list) chat_env" where
  "chat_test_env =
     \<lparr>prepare_inputs_for_generation = (\<lambda>ids kw. Inr ids),
      forward = (\<lambda>ids. Inr (map (\<lambda>row. [[0, 0]]) ids, ())),
      logits_processor = (\<lambda>ids scores. scores),
      logits_warper = (\<lambda>ids scores. scores),
      stopping_criteria = (\<lambda>ids. False),
      update_model_kwargs = (\<lambda>outputs kw. kw),
      chat_multinomial = (\<lambda>g probs n.
                            case g of [] \<Rightarrow> Inl RuntimeError
                            | t # g' \<Rightarrow> Inr (map (\<lambda>row. replicate (nat n) t) probs, g'))\<rparr>"

definition greedy_config :: generation_config where
  "greedy_config = \<lparr>do_sample = False, eos_token_id = [5]\<rparr>"



section \<open>Properties of top\_k\_logits\<close>

subsection \<open>Sorting\<close>

lemma less_logit_simps [simp]:
  "\<not> x < NegInf" "NegInf < Fin a" "(Fin a < Fin b) = (a < b)"
  by (cases x; auto simp: less_logit_def)+

lemma mset_insert_desc: "mset (insert_desc p qs) = add_mset p (mset qs)"
  by (induction qs) auto

lemma mset_foldr_insert_desc: "mset (foldr insert_desc ps []) = mset ps"
  by (induction ps) (auto simp: mset_insert_desc)

lemma mset_sort_desc: "mset (sort_desc row) = mset (zip row [0..<length row])"
  by (simp add: sort_desc_def mset_foldr_insert_desc)

lemma length_sort_desc [simp]: "length (sort_desc row) = length row"
  using mset_eq_length [OF mset_sort_desc, of row] by simp

lemma mset_sorted_logits: "mset (map fst (sort_desc row)) = mset row"
proof -
  have "mset (map fst (sort_desc row)) = image_mset fst (mset (sort_desc row))"
    by (rule mset_map)
  also have "\<dots> = image_mset fst (mset (zip row [0..<length row]))"
    by (simp only: mset_sort_desc)
  also have "\<dots> = mset (map fst (zip row [0..<length row]))"
    by (rule mset_map [symmetric])
  also have "map fst (zip row [0..<length row]) = row" by simp
  finally show ?thesis .
qed

lemma mset_sorted_indices: "mset (map snd (sort_desc row)) = mset [0..<length row]"
proof -
  have "mset (map snd (sort_desc row)) = image_mset snd (mset (sort_desc row))"
    by (rule mset_map)
  also have "\<dots> = image_mset snd (mset (zip row [0..<length row]))"
    by (simp only: mset_sort_desc)
  also have "\<dots> = mset (map snd (zip row [0..<length row]))"
    by (rule mset_map [symmetric])
  also have "map snd (zip row [0..<length row]) = [0..<length row]" by simp
  finally show ?thesis .
qed

lemma set_insert_desc: "set (insert_desc p qs) = insert p (set qs)"
  by (induction qs) auto

lemma desc_insert_desc: "desc qs \<Longrightarrow> desc (insert_desc p qs)"
  unfolding desc_def
  by (induction qs) (auto simp: set_insert_desc)

lemma desc_sort_desc: "desc (sort_desc row)"
proof -
  have "desc (foldr insert_desc ps [])" for ps
    by (induction ps) (auto simp: desc_insert_desc, simp add: desc_def)
  then show ?thesis by (simp add: sort_desc_def)
qed

lemma sorted_logits_desc: "sorted_wrt (\<lambda>a b. b \<le> a) (map fst (sort_desc row))"
  using desc_sort_desc [of row] by (simp add: desc_def sorted_wrt_map)

text \<open>Counting the entries at or above the k-th largest value of a descending list.\<close>

lemma count_ge_kth:
  assumes "sorted_wrt (\<lambda>a b. b \<le> a) (s :: 'a::linorder list)" "0 < k" "k \<le> length s"
  shows "k \<le> length (filter (\<lambda>x. s ! (k - 1) \<le> x) s)"
    and "distinct s \<Longrightarrow> length (filter (\<lambda>x. s ! (k - 1) \<le> x) s) = k"
proof -
  let ?P = "\<lambda>x. s ! (k - 1) \<le> x"
  have split: "filter ?P s = filter ?P (take k s) @ filter ?P (drop k s)"
    by (metis append_take_drop_id filter_append)
  have all: "\<forall>x \<in> set (take k s). ?P x"
  proof
    fix x assume "x \<in> set (take k s)"
    then obtain i where i: "i < k" "x = s ! i"
      using assms(3) by (auto simp: in_set_conv_nth)
    show "?P x"
    proof (cases "i = k - 1")
      case True then show ?thesis using i by simp
    next
      case False
      then have "i < k - 1" using i by simp
      then show ?thesis using assms i sorted_wrt_nth_less [OF assms(1), of i "k - 1"] by simp
    qed
  qed
  then have tk: "filter ?P (take k s) = take k s" by simp
  show "k \<le> length (filter ?P s)"
    using assms(3) by (subst split) (simp only: tk length_append length_take min_absorb2 le_add1)
  show "length (filter ?P s) = k" if d: "distinct s"
  proof -
    have "\<not> ?P x" if "x \<in> set (drop k s)" for x
    proof -
      from that obtain j where j: "j < length s - k" "x = s ! (k + j)"
        by (auto simp: in_set_conv_nth)
      have lt: "k - 1 < k + j" "k + j < length s" using assms j by auto
      have "x \<le> s ! (k - 1)" using sorted_wrt_nth_less [OF assms(1) lt] j by simp
      moreover have "x \<noteq> s ! (k - 1)"
        using d lt j by (simp add: nth_eq_iff_index_eq)
      ultimately show ?thesis by simp
    qed
    then have "filter ?P (drop k s) = []" by (simp add: filter_empty_conv)
    then show ?thesis using assms(3) by (subst split) (simp only: tk length_append length_take min_absorb2 list.size add_0_right)
  qed
qed

lemma length_filter_mset: "mset xs = mset ys \<Longrightarrow> length (filter P xs) = length (filter P ys)"
  by (metis mset_filter size_mset)

lemma unfiltered_threshold:
  assumes "fv \<notin> set row"
  shows "unfiltered fv (map (\<lambda>x. if x < thr then fv else x) row) = length (filter (\<lambda>x. thr \<le> x) row)"
  using assms unfolding unfiltered_def
  by (induction row) (auto simp: not_less)

lemma top_k_count:
  assumes "0 < k" "k \<le> length row"
  shows "k \<le> length (filter (\<lambda>x. map fst (sort_desc row) ! (k - 1) \<le> x) row)"
    and "distinct row \<Longrightarrow> length (filter (\<lambda>x. map fst (sort_desc row) ! (k - 1) \<le> x) row) = k"
proof -
  let ?s = "map fst (sort_desc row)"
  have len: "k \<le> length ?s" using assms by simp
  have eq: "length (filter P row) = length (filter P ?s)" for P
    using length_filter_mset [OF mset_sorted_logits [symmetric]] by blast
  show "k \<le> length (filter (\<lambda>x. ?s ! (k - 1) \<le> x) row)"
    using count_ge_kth(1) [OF sorted_logits_desc assms(1) len] by (simp add: eq)
  show "length (filter (\<lambda>x. ?s ! (k - 1) \<le> x) row) = k" if "distinct row"
  proof -
    have "distinct ?s" using that mset_sorted_logits [of row] by (metis mset_eq_imp_distinct_iff)
    then show ?thesis
      using count_ge_kth(2) [OF sorted_logits_desc assms(1) len] by (simp add: eq)
  qed
qed


subsection \<open>The nucleus prefix\<close>

lemma length_cumsum_from [simp]: "length (cumsum_from a ps) = length ps"
  by (induction ps arbitrary: a) auto

lemma exact_kernel_simps [simp]:
  "softmax_op exact_kernel = softmax" "cumsum_op exact_kernel = cumsum"
  "scalar_op exact_kernel x = x" "divide_op exact_kernel x t = x / t"
  "log_softmax_op exact_kernel = log_softmax" "add_op exact_kernel x y = x + y"
  by (simp_all add: exact_kernel_def)

lemma well_shaped_exact_kernel: "well_shaped exact_kernel"
  by (simp add: well_shaped_def softmax_def cumsum_def log_softmax_def)

lemma length_cumulative_probs:
  "well_shaped K \<Longrightarrow> length (cumulative_probs K sl) = length sl"
  by (simp add: well_shaped_def cumulative_probs_def)

lemma sort_desc_pairs:
  assumes "(v, i) \<in> set (sort_desc row)"
  shows "i < length row \<and> v = row ! i"
proof -
  have "set (sort_desc row) = set (zip row [0..<length row])"
    using mset_sort_desc [of row] by (rule mset_eq_setD)
  with assms have "(v, i) \<in> set (zip row [0..<length row])" by simp
  then show ?thesis by (auto simp: in_set_zip)
qed

lemma set_select_mask_subset: "set (select_mask xs m) \<subseteq> set xs"
  by (auto simp: select_mask_def dest: set_zip_leftD)

lemma select_mask_Cons [simp]:
  "select_mask (x # xs) (b # m) = (if b then x # select_mask xs m else select_mask xs m)"
  by (simp add: select_mask_def)

lemma select_mask_Nil [simp]: "select_mask [] m = []" "select_mask xs [] = []"
  by (simp_all add: select_mask_def)

lemma select_mask_partition:
  "distinct xs \<Longrightarrow> length m = length xs \<Longrightarrow> x \<in> set xs \<Longrightarrow>
   (x \<in> set (select_mask xs m)) = (x \<notin> set (select_mask xs (map Not m)))"
proof (induction xs arbitrary: m)
  case Nil
  then show ?case by simp
next
  case (Cons y ys)
  then obtain b m' where m: "m = b # m'" "length m' = length ys" by (cases m) auto
  have notin: "y \<notin> set (select_mask ys k)" for k
    using Cons.prems(1) set_select_mask_subset [of ys k] by auto
  show ?case
  proof (cases "x = y")
    case True
    then show ?thesis using m notin by simp
  next
    case False
    then have "x \<in> set ys" using Cons.prems(3) by simp
    with Cons.IH [of m'] Cons.prems(1) m False show ?thesis by simp
  qed
qed

lemma select_mask_nth_mem:
  "distinct xs \<Longrightarrow> length m = length xs \<Longrightarrow> j < length xs \<Longrightarrow>
   (xs ! j \<in> set (select_mask xs m)) = m ! j"
proof (induction xs arbitrary: m j)
  case Nil
  then show ?case by simp
next
  case (Cons y ys)
  then obtain b m' where m: "m = b # m'" "length m' = length ys" by (cases m) auto
  have notin: "y \<notin> set (select_mask ys k)" for k
    using Cons.prems(1) set_select_mask_subset [of ys k] by auto
  show ?case
  proof (cases j)
    case 0
    then show ?thesis using m notin by simp
  next
    case (Suc j')
    then have j': "j' < length ys" using Cons.prems(3) by simp
    then have "ys ! j' \<noteq> y" using Cons.prems(1) by auto
    with Cons.IH [of m' j'] Cons.prems(1) m j' Suc show ?thesis by simp
  qed
qed

lemma set_indices_nth:
  "i < length xs \<Longrightarrow> set_indices xs idx v ! i = (if i \<in> set idx then v else xs ! i)"
  by (simp add: set_indices_def)

lemma length_set_indices [simp]: "length (set_indices xs idx v) = length xs"
  by (simp add: set_indices_def)

lemma sorted_head_max:
  assumes "row \<noteq> []"
  shows "\<forall>i<length row. row ! i \<le> row ! hd (map snd (sort_desc row))"
proof -
  from assms have "sort_desc row \<noteq> []"
    using length_sort_desc [of row] by (metis length_0_conv)
  then obtain v0 i0 rest where s: "sort_desc row = (v0, i0) # rest"
    by (cases "sort_desc row") auto
  then have v0: "v0 = row ! i0"
    using sort_desc_pairs [of v0 i0 row] by simp
  have le: "\<forall>p \<in> set (sort_desc row). fst p \<le> v0"
    using desc_sort_desc [of row] unfolding s desc_def by auto
  show ?thesis
  proof (intro allI impI)
    fix i assume "i < length row"
    then have "row ! i \<in> set (map fst (sort_desc row))"
      using mset_sorted_logits [of row] by (metis mset_eq_setD nth_mem)
    then have "row ! i \<le> v0" using le by auto
    then show "row ! i \<le> row ! hd (map snd (sort_desc row))"
      using s v0 by simp
  qed
qed

lemma sorted_indices_set: "set (map snd (sort_desc row)) = {0..<length row}"
  using mset_sorted_indices [of row] by (metis mset_eq_setD set_upt)

lemma sorted_indices_distinct: "distinct (map snd (sort_desc row))"
  using mset_sorted_indices [of row] by (metis mset_eq_imp_distinct_iff distinct_upt)

lemma sorted_indices_to_remove_Inr:
  "sl \<noteq> [] \<Longrightarrow>
   sorted_indices_to_remove K sl p
     = Inr (False # butlast (map (\<lambda>c. c > scalar_op K p) (cumulative_probs K sl)))"
  by (simp add: sorted_indices_to_remove_def Let_def)

lemma top_p_filter_total:
  assumes "row \<noteq> []"
  shows "\<exists>out. top_p_filter K p fv row = Inr out \<and> length out = length row"
proof -
  have "map fst (sort_desc row) \<noteq> []"
    using assms length_sort_desc [of row] by (metis length_0_conv length_map)
  then show ?thesis
    unfolding top_p_filter_def indices_to_remove_def Let_def
    by (simp add: sorted_indices_to_remove_Inr)
qed

text \<open>The shifted mask at a rank, for operations that keep the shape of a row.\<close>

lemma shifted_mask_nth:
  assumes "length remove = n" "j < n"
  shows "(False # butlast remove) ! j = (j \<noteq> 0 \<and> remove ! (j - 1))"
proof (cases j)
  case 0
  then show ?thesis by simp
next
  case (Suc j')
  then have "j' < length (butlast remove)" using assms by simp
  then have "butlast remove ! j' = remove ! j'" by (rule nth_butlast)
  with Suc show ?thesis by simp
qed

lemma top_p_main:
  fixes p :: real
  assumes ne: "row \<noteq> []" and ws: "well_shaped K"
  defines "kept \<equiv> kept_ranked K row p"
  shows "\<exists>out. top_p_filter K p fv row = Inr out \<and> length out = length row \<and>
           (\<forall>i<length row. out ! i = (if i \<in> set kept then row ! i else fv))"
    and "kept \<noteq> []"
    and "set kept \<subseteq> {..<length row}"
    and "\<forall>i<length row. row ! i \<le> row ! hd kept"
    and "\<forall>j<length row. (ranked row ! j \<in> set kept)
           = (j = 0 \<or> cumulative_probs K (map fst (sort_desc row)) ! (j - 1) \<le> scalar_op K p)"
proof -
  let ?sorted = "sort_desc row"
  let ?sl = "map fst ?sorted" and ?si = "map snd ?sorted"
  let ?cp = "cumulative_probs K ?sl"
  let ?remove = "map (\<lambda>c. c > scalar_op K p) ?cp"
  let ?msk = "False # butlast ?remove"
  have lenr: "length ?remove = length row"
    using length_cumulative_probs [OF ws, of ?sl] by simp
  have slne: "?sl \<noteq> []"
    using ne length_sort_desc [of row] by (metis length_0_conv length_map)
  have msk: "sorted_indices_to_remove K ?sl p = Inr ?msk"
    using slne by (rule sorted_indices_to_remove_Inr)
  have lenm: "length ?msk = length ?si" using lenr ne by simp
  have lenm': "length (map Not ?msk) = length ?si" using lenm by simp
  have kept: "kept = select_mask ?si (map Not ?msk)"
    unfolding kept_def kept_ranked_def Let_def msk by simp
  have removed: "indices_to_remove K row p = Inr (select_mask ?si ?msk)"
    unfolding indices_to_remove_def Let_def msk by simp
  note si_set = sorted_indices_set [of row]
  note si_dist = sorted_indices_distinct [of row]
  have "?si \<noteq> []" using ne length_sort_desc [of row] by (metis length_0_conv length_map)
  then have hd: "hd kept = hd ?si" and "kept \<noteq> []"
    unfolding kept by (cases ?si; simp)+
  then show "kept \<noteq> []" by simp
  show "set kept \<subseteq> {..<length row}"
    using set_select_mask_subset [of ?si "map Not ?msk"] si_set unfolding kept by auto
  show "\<forall>i<length row. row ! i \<le> row ! hd kept"
    using sorted_head_max [OF ne] hd by simp
  show "\<forall>j<length row. (ranked row ! j \<in> set kept)
           = (j = 0 \<or> ?cp ! (j - 1) \<le> scalar_op K p)"
  proof (intro allI impI)
    fix j assume j: "j < length row"
    then have jl: "j < length ?si" by simp
    have "(ranked row ! j \<in> set kept) = (map Not ?msk) ! j"
      unfolding kept ranked_def by (rule select_mask_nth_mem [OF si_dist lenm' jl])
    also have "\<dots> = (\<not> ?msk ! j)"
      using jl lenm by (intro nth_map) (simp only:)
    also have "\<dots> = (\<not> (j \<noteq> 0 \<and> ?remove ! (j - 1)))"
      by (simp only: shifted_mask_nth [OF lenr j])
    also have "\<dots> = (j = 0 \<or> ?cp ! (j - 1) \<le> scalar_op K p)"
    proof (cases "j = 0")
      case True
      then show ?thesis by simp
    next
      case False
      then have "j - 1 < length ?cp" using j lenr by simp
      then show ?thesis using False by (simp add: not_less)
    qed
    finally show "(ranked row ! j \<in> set kept)
           = (j = 0 \<or> ?cp ! (j - 1) \<le> scalar_op K p)" .
  qed
  have part: "(i \<in> set (select_mask ?si ?msk)) = (i \<notin> set kept)" if "i < length row" for i
    unfolding kept using select_mask_partition [OF si_dist lenm, of i] that si_set by simp
  show "\<exists>out. top_p_filter K p fv row = Inr out \<and> length out = length row \<and>
           (\<forall>i<length row. out ! i = (if i \<in> set kept then row ! i else fv))"
    unfolding top_p_filter_def removed
    by (simp add: set_indices_nth part)
qed


section \<open>Properties of the sampling loop\<close>

lemma bindE_Inr_iff: "bindE m f = Inr y \<longleftrightarrow> (\<exists>x. m = Inr x \<and> f x = Inr y)"
  by (simp add: bindE_def split: sum.splits)

lemma bindE_simps [simp]: "bindE (Inl err) f = Inl err" "bindE (Inr x) f = f x"
  by (simp_all add: bindE_def)

lemma cat_dim1_Inr: "cat_dim1 a b = Inr c \<longleftrightarrow> length a = length b \<and> c = map2 (@) a b"
  by (auto simp: cat_dim1_def)

lemma single_step_tokens:
  assumes "single_step e a end_tokens logits ms st = Inr r" and "tokens st = [row]"
  shows "(\<forall>st'. r = Break st' \<longrightarrow> tokens st' = [row]) \<and>
         (\<forall>st'. r = Continue st' \<longrightarrow> (\<exists>t. t \<notin> set end_tokens \<and> tokens st' = [row @ [t]]))"
  using assms
  by (auto simp: single_step_def bindE_Inr_iff cat_dim1_Inr Let_def split: if_splits)

lemma loop_body_single:
  assumes "num_beams a \<le> 1"
    and "loop_body e a ct cl first end_tokens c st = Inr r" and "tokens st = [row]"
  shows "(\<forall>st'. r = Break st' \<longrightarrow> tokens st' = [row]) \<and>
         (\<forall>st'. r = Continue st' \<longrightarrow> (\<exists>t. t \<notin> set end_tokens \<and> tokens st' = [row @ [t]]))"
proof -
  from assms(1,2) obtain logits ms where
    "single_step e a end_tokens logits ms st = Inr r"
    by (auto simp: loop_body_def bindE_Inr_iff)
  then show ?thesis using assms(3) by (rule single_step_tokens)
qed

lemma sample_loop_single:
  "num_beams a \<le> 1 \<Longrightarrow> tokens st = [row] \<Longrightarrow>
         sample_loop e a ct cl first end_tokens c st = Inr st' \<Longrightarrow>
         \<exists>gen. tokens st' = [row @ gen] \<and> set gen \<inter> set end_tokens = {} \<and>
               int (length gen) \<le> max 0 (out_seq_length a - c)"
proof (induction e a ct cl first end_tokens c st arbitrary: row rule: sample_loop.induct)
  case (1 e a ct cl first end_tokens c st)
  show ?case
  proof (cases "c < out_seq_length a")
    case False
    with "1.prems"(3) have "st' = st" by (subst (asm) sample_loop.simps) simp
    with "1.prems"(2) show ?thesis by simp
  next
    case True
    from "1.prems"(3) True obtain r where
      r: "loop_body e a ct cl first end_tokens c st = Inr r"
      by (subst (asm) sample_loop.simps) (auto split: sum.splits)
    note body = loop_body_single [OF "1.prems"(1) r "1.prems"(2)]
    show ?thesis
    proof (cases r)
      case (Break s)
      with "1.prems"(3) True r have "st' = s"
        by (subst (asm) sample_loop.simps) simp
      with body Break show ?thesis by simp
    next
      case (Continue s)
      with "1.prems"(3) True r have
        rec: "sample_loop e a ct cl first end_tokens (c + 1) s = Inr st'"
        by (subst (asm) sample_loop.simps) simp
      from body Continue obtain t where
        t: "t \<notin> set end_tokens" "tokens s = [row @ [t]]" by blast
      from "1.IH" [OF True r Continue "1.prems"(1) t(2) rec] obtain gen where
        gen: "tokens st' = [(row @ [t]) @ gen]" "set gen \<inter> set end_tokens = {}"
          "int (length gen) \<le> max 0 (out_seq_length a - (c + 1))" by blast
      have "tokens st' = [row @ (t # gen)]" using gen(1) by simp
      moreover have "set (t # gen) \<inter> set end_tokens = {}" using gen(2) t(1) by simp
      moreover have "int (length (t # gen)) \<le> max 0 (out_seq_length a - c)"
        using gen(3) True by simp
      ultimately show ?thesis by blast
    qed
  qed
qed

lemma sample_loop_end_token:
  assumes "num_beams a \<le> 1" and "c < out_seq_length a"
    and "forward_step e a ct cl first c st = Inr (logits, ms)"
    and "sample_token e a logits (rng st) = Inr (t, g')"
    and "t \<in> set end_tokens"
  shows "sample_loop e a ct cl first end_tokens c st = Inr (st\<lparr>mems := Some ms, rng := g'\<rparr>)"
  using assms
  by (subst sample_loop.simps) (simp add: loop_body_def single_step_def)

lemma sample_loop_bound:
  "out_seq_length a \<le> c \<Longrightarrow> sample_loop e a ct cl first end_tokens c st = Inr st"
  by (subst sample_loop.simps) simp

lemma sample_sequence_not_block:
  "\<not> block_lm a \<Longrightarrow> sample_sequence e tok ctx cl a mems0 et0 g = Inl NotImplementedError"
  by (simp add: sample_sequence_def get_batch_def)

text \<open>
  With more than one beam the call stops at line 144, before the loop: no run of
  \<open>sample_sequence\<close> reaches the beam branch.
\<close>

lemma sample_sequence_beams:
  "block_lm a \<Longrightarrow> 1 < num_beams a \<Longrightarrow>
   sample_sequence e tok ctx cl a mems0 et0 g = Inl NameError"
  by (simp add: sample_sequence_def Let_def)


subsection \<open>Parameters out of range\<close>

lemma set_indices_Nil [simp]: "set_indices xs [] v = xs"
  by (simp add: set_indices_def map_nth)

lemma top_k_filter_total:
  assumes "k \<le> length row"
  shows "\<exists>out. top_k_filter k fv row = Inr out \<and> length out = length row"
  using assms by (simp add: top_k_filter_def topk_last_def)

text \<open>On one nonempty row, \<open>top_k_logits\<close> fails only when \<open>top_k\<close> exceeds its size.\<close>

lemma top_k_logits_total:
  assumes ne: "row \<noteq> []" and k: "k \<le> int (length row)"
  shows "\<exists>out. top_k_logits K [row] k p fv = Inr [out] \<and> length out = length row"
proof -
  have "\<exists>row1. (if k > 0 then mapE (top_k_filter (nat k) fv) [row] else Inr [row]) = Inr [row1]
          \<and> length row1 = length row"
  proof (cases "k > 0")
    case True
    then have "nat k \<le> length row" using k by simp
    from top_k_filter_total [OF this, of fv] obtain out where
      "top_k_filter (nat k) fv row = Inr out" "length out = length row" by blast
    with True show ?thesis by simp
  next
    case False
    then show ?thesis by simp
  qed
  then obtain row1 where
    1: "(if k > 0 then mapE (top_k_filter (nat k) fv) [row] else Inr [row]) = Inr [row1]"
    and l1: "length row1 = length row" by blast
  from l1 ne have ne1: "row1 \<noteq> []" by (metis length_0_conv)
  show ?thesis
  proof (cases "p > 0")
    case True
    from top_p_filter_total [OF ne1, of K p fv] obtain out where
      "top_p_filter K p fv row1 = Inr out" "length out = length row1" by blast
    with True 1 l1 show ?thesis
      unfolding top_k_logits_def by (simp only: bindE_simps list.case if_True) simp
  next
    case False
    with 1 l1 show ?thesis
      unfolding top_k_logits_def by (simp only: bindE_simps if_False) simp
  qed
qed


subsection \<open>The beam branch\<close>

lemma mapE_Inr:
  "mapE f xs = Inr ys \<longleftrightarrow> length ys = length xs \<and> (\<forall>i<length xs. f (xs ! i) = Inr (ys ! i))"
proof (induction xs arbitrary: ys)
  case Nil
  then show ?case by auto
next
  case (Cons x xs)
  show ?case
  proof (cases ys)
    case Nil
    then show ?thesis by (auto split: sum.splits)
  next
    case (Cons y ys')
    then show ?thesis
      using Cons.IH [of ys'] by (auto simp: nth_Cons split: sum.splits nat.splits)
  qed
qed

lemma mapE_all_Inr: "\<forall>x \<in> set xs. f x = Inr (h x) \<Longrightarrow> mapE f xs = Inr (map h xs)"
  by (induction xs) simp_all

lemma index_select_Inr:
  "index_select xs idx = Inr ys \<longleftrightarrow> (\<forall>i \<in> set idx. i < length xs) \<and> ys = map (\<lambda>i. xs ! i) idx"
  by (auto simp: index_select_def)

lemma reorder_tokens_eq:
  assumes "\<forall>i \<in> set beam_idx. i < length toks" and "length nxt = length beam_idx"
  shows "reorder_tokens toks beam_idx nxt = Inr (map2 (\<lambda>i t. toks ! i @ [t]) beam_idx nxt)"
proof -
  have "map2 (@) (map (\<lambda>i. toks ! i) beam_idx) (map (\<lambda>t. [t]) nxt)
        = map2 (\<lambda>i t. toks ! i @ [t]) beam_idx nxt"
    by (simp add: zip_map_map case_prod_beta)
  then show ?thesis
    using assms by (simp add: reorder_tokens_def index_select_def cat_dim1_def)
qed

lemma reorder_mems_eq:
  assumes "\<forall>mem \<in> set ms. \<forall>i \<in> set beam_idx. i < length mem"
  shows "reorder_mems ms beam_idx
         = Inr (if ms = [] then None
                else Some (map (\<lambda>mem. map (\<lambda>i. mem ! i) beam_idx) ms))"
proof -
  have "mapE (\<lambda>mem. index_select mem beam_idx) ms
        = Inr (map (\<lambda>mem. map (\<lambda>i. mem ! i) beam_idx) ms)"
    using assms by (intro mapE_all_Inr) (simp add: index_select_def)
  then show ?thesis by (simp add: reorder_mems_def)
qed

lemma index_select1_eq:
  assumes "\<forall>row \<in> set t. \<forall>i \<in> set beam_idx. i < length row"
  shows "index_select1 t beam_idx = Inr (map (\<lambda>row. map (\<lambda>i. row ! i) beam_idx) t)"
  unfolding index_select1_def using assms by (intro mapE_all_Inr) simp

lemma reorder_cache_eq:
  assumes "\<forall>layer \<in> set past. \<forall>row \<in> set (fst layer) \<union> set (snd layer).
             \<forall>i \<in> set beam_idx. i < length row"
  shows "reorder_cache past beam_idx
         = Inr (map (\<lambda>layer. (map (\<lambda>row. map (\<lambda>i. row ! i) beam_idx) (fst layer),
                               map (\<lambda>row. map (\<lambda>i. row ! i) beam_idx) (snd layer))) past)"
  unfolding reorder_cache_def
proof (intro mapE_all_Inr ballI)
  fix layer assume l: "layer \<in> set past"
  have k: "index_select1 (fst layer) beam_idx
           = Inr (map (\<lambda>row. map (\<lambda>i. row ! i) beam_idx) (fst layer))"
    using assms l by (intro index_select1_eq) auto
  have v: "index_select1 (snd layer) beam_idx
           = Inr (map (\<lambda>row. map (\<lambda>i. row ! i) beam_idx) (snd layer))"
    using assms l by (intro index_select1_eq) auto
  show "bindE (index_select1 (fst layer) beam_idx)
          (\<lambda>k. bindE (index_select1 (snd layer) beam_idx) (\<lambda>v. Inr (k, v)))
        = Inr (map (\<lambda>row. map (\<lambda>i. row ! i) beam_idx) (fst layer),
               map (\<lambda>row. map (\<lambda>i. row ! i) beam_idx) (snd layer))"
    by (simp only: k v bindE_simps)
qed

text \<open>
  The state after a beam step whose scorer returned \<open>outs\<close> and the new scorer state
  \<open>b'\<close>, on the expanded rows \<open>toks\<close> and the cache \<open>ms\<close> of the forward pass.
\<close>

lemma beam_select_eq:
  assumes scorer: "beam_scorer st = Some b"
    and expand: "expand_rows (tokens st) (num_beams a) = Inr toks"
    and proc: "process e b toks scores nt ni end_tokens (Some ms) = Inr (outs, b')"
    and toks: "\<forall>i \<in> set (next_beam_indices outs). i < length toks"
    and mems: "\<forall>mem \<in> set ms. \<forall>i \<in> set (next_beam_indices outs). i < length mem"
    and len: "length (next_beam_tokens outs) = length (next_beam_indices outs)"
  shows "beam_select e a end_tokens ms st (scores, nt, ni, g')
         = Inr ((if is_done e b' then Break else Continue)
                  (st\<lparr>tokens := map2 (\<lambda>i t. toks ! i @ [t])
                                   (next_beam_indices outs) (next_beam_tokens outs),
                       mems := (if ms = [] then None
                                else Some (map (\<lambda>mem. map (\<lambda>i. mem ! i)
                                                        (next_beam_indices outs)) ms)),
                       rng := g', beam_scorer := Some b',
                       beam_scores := Some (next_beam_scores outs),
                       next_tokens := Some nt, next_indices := Some ni,
                       last_beam_num := (if is_done e b' then last_beam_num st
                                         else num_beams a)\<rparr>))"
proof -
  note rt = reorder_tokens_eq [OF toks len]
  note rm = reorder_mems_eq [OF mems]
  show ?thesis
    unfolding beam_select_def
    by (simp only: prod.case expand bindE_simps scorer option.case proc Let_def rt rm) simp
qed

text \<open>Conversely, a beam step that returns has run the scorer and gathered along its indices.\<close>

lemma beam_select_Inr:
  assumes "beam_select e a end_tokens ms st (scores, nt, ni, g') = Inr r"
  shows "\<exists>b toks outs b'.
           beam_scorer st = Some b \<and>
           expand_rows (tokens st) (num_beams a) = Inr toks \<and>
           process e b toks scores nt ni end_tokens (Some ms) = Inr (outs, b') \<and>
           (\<forall>i \<in> set (next_beam_indices outs). i < length toks) \<and>
           (\<forall>mem \<in> set ms. \<forall>i \<in> set (next_beam_indices outs). i < length mem) \<and>
           length (next_beam_tokens outs) = length (next_beam_indices outs)"
proof -
  from assms obtain toks where
    1: "expand_rows (tokens st) (num_beams a) = Inr toks"
    unfolding beam_select_def by (cases "expand_rows (tokens st) (num_beams a)") simp_all
  from assms obtain b where 2: "beam_scorer st = Some b"
    unfolding beam_select_def 1 by (cases "beam_scorer st") simp_all
  from assms obtain outs b' where
    3: "process e b toks scores nt ni end_tokens (Some ms) = Inr (outs, b')"
    unfolding beam_select_def 1 2
    by (cases "process e b toks scores nt ni end_tokens (Some ms)") auto
  from assms obtain toks' where
    4: "reorder_tokens toks (next_beam_indices outs) (next_beam_tokens outs) = Inr toks'"
    unfolding beam_select_def 1 2
    by (cases "reorder_tokens toks (next_beam_indices outs) (next_beam_tokens outs)")
      (simp_all add: 3 Let_def)
  from assms obtain mems' where
    5: "reorder_mems ms (next_beam_indices outs) = Inr mems'"
    unfolding beam_select_def 1 2
    by (cases "reorder_mems ms (next_beam_indices outs)") (simp_all add: 3 4 Let_def)
  from 4 have t: "(\<forall>i \<in> set (next_beam_indices outs). i < length toks) \<and>
      length (next_beam_tokens outs) = length (next_beam_indices outs)"
    by (auto simp: reorder_tokens_def bindE_Inr_iff index_select_Inr cat_dim1_Inr)
  from 5 have "\<forall>l<length ms. \<forall>i \<in> set (next_beam_indices outs). i < length (ms ! l)"
    by (auto simp: reorder_mems_def bindE_Inr_iff mapE_Inr index_select_Inr split: if_splits)
  then have m: "\<forall>mem \<in> set ms. \<forall>i \<in> set (next_beam_indices outs). i < length mem"
    by (metis in_set_conv_nth)
  from 1 2 3 t m show ?thesis by blast
qed


subsection \<open>Prompts\<close>

lemma endswith_append: "endswith ys suffix \<Longrightarrow> endswith (xs @ ys) suffix"
  by (auto simp: endswith_def)

lemma generation_mask_endswith:
  "endswith (line @ '' '' @ (if task_mask a then ''[gMASK]'' else ''[MASK]'')) ''MASK]''"
  by (intro endswith_append) (simp add: endswith_def)


subsection \<open>Broadcasts\<close>

lemma prompt_loop_result:
  "prompt_loop tok a stdin = Inr (p, rest) \<Longrightarrow>
   (terminate_runs p = 1 \<or>
    (terminate_runs p = 0 \<and>
     (\<exists>ids. context_tokens p = Some ids \<and> context_length p = Some (int (length ids)))))"
proof (induction stdin)
  case Nil
  then show ?case by simp
next
  case (Cons line stdin)
  show ?case
  proof (cases "line = []")
    case True
    with Cons.prems have "prompt_loop tok a stdin = Inr (p, rest)" by simp
    then show ?thesis by (rule Cons.IH)
  next
    case ne: False
    show ?thesis
    proof (cases "line = ''stop''")
      case True
      with Cons.prems have "terminate_runs p = 1" by auto
      then show ?thesis by simp
    next
      case ns: False
      obtain prompt ids where ep: "encode_prompt tok a line = (prompt, ids)"
        by (cases "encode_prompt tok a line") auto
      show ?thesis
      proof (cases "int (length ids) \<ge> max_sequence_length a")
        case True
        with Cons.prems ne ns ep have "prompt_loop tok a stdin = Inr (p, rest)" by simp
        then show ?thesis by (rule Cons.IH)
      next
        case False
        with Cons.prems ne ns ep have
          "p = \<lparr>terminate_runs = 0, raw_text = Some prompt, context_tokens = Some ids,
                context_length = Some (int (length ids))\<rparr>" by simp
        then show ?thesis by simp
      qed
    qed
  qed
qed

lemma broadcast_same:
  assumes "buffers \<noteq> []" and "\<forall>b \<in> set buffers. length b = length (buffers ! 0)"
  shows "broadcast buffers 0 = Inr (replicate (length buffers) (buffers ! 0))"
proof -
  from assms have c: "0 < length buffers \<and> (\<forall>b \<in> set buffers. length b = length (buffers ! 0))"
    by blast
  have m: "map (\<lambda>b. buffers ! 0) buffers = replicate (length buffers) (buffers ! 0)"
    by (rule map_replicate_const)
  show ?thesis
    unfolding broadcast_def m using c by (rule if_P)
qed

lemma mapE_map:
  "\<forall>x \<in> set xs. f x = Inr (g x) \<Longrightarrow> mapE f xs = Inr (map g xs)"
  by (induction xs) simp_all

lemma broadcast_const_len:
  assumes "buffers \<noteq> []" and "\<forall>b \<in> set buffers. length b = n"
  shows "broadcast buffers 0 = Inr (replicate (length buffers) (buffers ! 0))"
proof -
  from assms(1) have "buffers ! 0 \<in> set buffers" by simp
  with assms(2) have "length (buffers ! 0) = n" by blast
  with assms(2) have "\<forall>b \<in> set buffers. length b = length (buffers ! 0)" by simp
  with assms(1) show ?thesis by (rule broadcast_same)
qed

lemma zip_ranks2:
  "length xs = w \<Longrightarrow> zip [0..<w] (zip xs (replicate w c)) = map (\<lambda>r. (r, xs ! r, c)) [0..<w]"
  by (rule nth_equalityI) simp_all

lemma zip_ranks4:
  "length xs = w \<Longrightarrow>
   zip [0..<w] (zip xs (zip (replicate w c) (zip (replicate w d) (replicate w k)))) =
     map (\<lambda>r. (r, xs ! r, c, d, k)) [0..<w]"
  by (rule nth_equalityI) simp_all


subsection \<open>stream\_generate\<close>

lemma choose_next_greedy:
  "\<not> do_sample cfg \<Longrightarrow>
   choose_next e cfg probs g = bindE (mapE argmax probs) (\<lambda>nt. Inr (map int nt, g))"
  by (simp add: choose_next_def)

lemma stream_step_greedy:
  assumes "\<not> do_sample cfg"
  shows "stream_step e cfg (s\<lparr>chat_rng := g\<rparr>) =
           (case stream_step e cfg s of
              Inl err \<Rightarrow> Inl err
            | Inr (Break s') \<Rightarrow> Inr (Break (s'\<lparr>chat_rng := g\<rparr>))
            | Inr (Continue s') \<Rightarrow> Inr (Continue (s'\<lparr>chat_rng := g\<rparr>)))"
  unfolding stream_step_def choose_next_greedy [OF assms]
  by (simp add: bindE_def Let_def split: sum.splits prod.splits)

lemma stream_loop_greedy:
  assumes "\<not> do_sample cfg"
  shows "stream_loop e cfg n (s\<lparr>chat_rng := g\<rparr>) = stream_loop e cfg n s"
proof (induction n arbitrary: s)
  case 0
  show ?case by simp
next
  case (Suc n)
  show ?case
  proof (cases "stream_step e cfg s")
    case (Inl err)
    then show ?thesis by (simp add: stream_step_greedy [OF assms])
  next
    case (Inr c)
    then show ?thesis
      by (cases c) (simp_all add: stream_step_greedy [OF assms] Suc.IH)
  qed
qed

lemma greedy_run:
  "stream_generate chat_test_env greedy_config 2 [[7]] () [3] =
     ([[[7, 0]], [[7, 0, 0]]], Running)"
proof -
  have am: "argmax [1 / 2, 1 / 2] = Inr 0" by (simp add: argmax_def)
  have sm: "softmax [Fin 0, Fin 0] = [1 / 2, 1 / 2]" by (simp add: softmax_def)
  have step: "stream_step chat_test_env greedy_config
                \<lparr>input_ids = [row], model_kwargs = (), unfinished_sequences = [1], chat_rng = g\<rparr> =
              Inr (Continue \<lparr>input_ids = [row @ [0]], model_kwargs = (),
                     unfinished_sequences = [1], chat_rng = g\<rparr>)" for row g
    by (simp add: stream_step_def chat_test_env_def greedy_config_def last_position_def
        choose_next_def sm am cat_dim1_def)
  have "stream_loop chat_test_env greedy_config (Suc (Suc 0))
          \<lparr>input_ids = [[7]], model_kwargs = (), unfinished_sequences = [1], chat_rng = [3]\<rparr> =
        ([[[7, 0]], [[7, 0, 0]]], Running)"
    by (simp add: step)
  then show ?thesis
    by (simp add: stream_generate_def eval_nat_numeral)
qed

text \<open>With sampling switched on, the output does depend on the generator.\<close>

lemma sampling_depends_on_generator:
  "stream_generate chat_test_env (greedy_config\<lparr>do_sample := True\<rparr>) 1 [[7]] () [3] \<noteq>
   stream_generate chat_test_env (greedy_config\<lparr>do_sample := True\<rparr>) 1 [[7]] () [2]"
  by (simp add: stream_generate_def stream_step_def chat_test_env_def greedy_config_def
      last_position_def choose_next_def cat_dim1_def)

section \<open>Claims about top\_k\_logits\<close>

text \<open>
  C1 (amended).  For a row that does not already hold the filter value, a positive
  \<open>top_k = k\<close> and no top-p filtering: if \<open>k\<close> exceeds the vocabulary size,
  \<open>torch.topk\<close> raises; otherwise the entries strictly below the k-th largest value are
  overwritten and all others are left as they are.  So at least \<open>k\<close> entries stay
  unfiltered (every entry tied with the k-th largest value stays), and exactly \<open>k\<close>
  when the values of the row are pairwise distinct.
\<close>

theorem top_k_keeps_threshold:
  assumes "0 < k" and "p \<le> 0" and "filter_value \<notin> set row"
  shows "if length row < nat k
         then top_k_logits K [row] k p filter_value = Inl RuntimeError
         else (\<exists>thr out.
                 topk_last row (nat k) = Inr thr \<and>
                 top_k_logits K [row] k p filter_value = Inr [out] \<and>
                 out = map (\<lambda>x. if x < thr then filter_value else x) row \<and>
                 nat k \<le> unfiltered filter_value out \<and>
                 (distinct row \<longrightarrow> unfiltered filter_value out = nat k))"
proof (cases "length row < nat k")
  case True
  then show ?thesis
    using assms(1,2) by (simp add: top_k_logits_def top_k_filter_def topk_last_def bindE_def)
next
  case False
  let ?k = "nat k"
  let ?thr = "map fst (sort_desc row) ! (?k - 1)"
  let ?out = "map (\<lambda>x. if x < ?thr then filter_value else x) row"
  have k: "0 < ?k" "?k \<le> length row" using assms(1) False by simp_all
  have thr: "topk_last row ?k = Inr ?thr" using False by (simp add: topk_last_def)
  have res: "top_k_logits K [row] k p filter_value = Inr [?out]"
    using assms(1,2) by (simp add: top_k_logits_def top_k_filter_def thr bindE_def)
  have cnt: "unfiltered filter_value ?out = length (filter (\<lambda>x. ?thr \<le> x) row)"
    by (rule unfiltered_threshold [OF assms(3)])
  have "?k \<le> unfiltered filter_value ?out"
    unfolding cnt by (rule top_k_count(1) [OF k])
  moreover have "distinct row \<longrightarrow> unfiltered filter_value ?out = ?k"
    unfolding cnt using top_k_count(2) [OF k] by blast
  ultimately show ?thesis using False thr res by simp
qed

theorem top_k_keeps_threshold_witness:
  "top_k_logits exact_kernel [[Fin 0, Fin 1]] 1 0 NegInf = Inr [[NegInf, Fin 1]] \<and>
   unfiltered NegInf [NegInf, Fin 1] = 1"
proof -
  have sd: "sort_desc [Fin 0, Fin 1] = [(Fin 1, 1), (Fin 0, 0)]"
    by (simp add: sort_desc_def upt_rec)
  have "topk_last [Fin 0, Fin 1] (nat 1) = Inr (Fin 1)"
    by (simp add: topk_last_def sd)
  then show ?thesis
    using top_k_keeps_threshold [of 1 0 NegInf "[Fin 0, Fin 1]" exact_kernel] by simp
qed

text \<open>
  The claim as stated fails on a tie: with two equal scores and \<open>top_k = 1\<close> both
  entries stay unfiltered, not \<open>min(top_k, vocab_size) = 1\<close>.
\<close>

theorem top_k_exact_count_counterexample:
  "top_k_logits exact_kernel [[Fin 0, Fin 0]] 1 0 NegInf = Inr [[Fin 0, Fin 0]] \<and>
   unfiltered NegInf [Fin 0, Fin 0] \<noteq> min (nat 1) (length [Fin 0, Fin 0])"
proof -
  have sd: "sort_desc [Fin 0, Fin 0] = [(Fin 0, 0), (Fin 0, 1)]"
    by (simp add: sort_desc_def upt_rec)
  show ?thesis
    by (simp add: top_k_logits_def top_k_filter_def topk_last_def sd bindE_def unfiltered_def)
qed

text \<open>
  C2 (amended).  For \<open>top_p = p > 0\<close>, a nonempty row, no top-k filtering and tensor
  operations that keep the shape of a row: the entries kept are exactly those at the
  indices \<open>kept_ranked\<close>; the entry ranked first, one of maximal score, is among them;
  and the entry at rank \<open>j > 0\<close> of the descending sort is kept exactly when the
  cumulative softmax probability of the ranks \<open>0..j-1\<close>, as the code computes it, is at
  most \<open>p\<close> (it may equal \<open>p\<close>).  So for every removed entry the computed cumulative
  probability of the ranks before it exceeds \<open>p\<close>, and for the lowest-ranked kept entry
  it does not.
\<close>

theorem top_p_keeps_minimal_prefix:
  fixes p :: real
  assumes "0 < p" and "row \<noteq> []" and "k \<le> 0" and "well_shaped K"
  shows "\<exists>out. top_k_logits K [row] k p filter_value = Inr [out] \<and>
           length out = length row \<and>
           (\<forall>i<length row.
              out ! i = (if i \<in> set (kept_ranked K row p) then row ! i else filter_value)) \<and>
           kept_ranked K row p \<noteq> [] \<and>
           set (kept_ranked K row p) \<subseteq> {..<length row} \<and>
           (\<forall>i<length row. row ! i \<le> row ! hd (kept_ranked K row p)) \<and>
           (\<forall>j<length row.
              (ranked row ! j \<in> set (kept_ranked K row p))
              = (j = 0 \<or> cumulative_probs K (map fst (sort_desc row)) ! (j - 1)
                           \<le> scalar_op K p))"
proof -
  note m = top_p_main [OF assms(2,4), of p]
  from m(1) [of filter_value] obtain out where
    out: "top_p_filter K p filter_value row = Inr out" "length out = length row"
      "\<forall>i<length row.
          out ! i = (if i \<in> set (kept_ranked K row p) then row ! i else filter_value)"
    by blast
  have "top_k_logits K [row] k p filter_value = Inr [out]"
    using assms(1,3) out(1) by (simp add: top_k_logits_def bindE_def)
  with out(2,3) m(2-5) show ?thesis by blast
qed

theorem top_p_keeps_minimal_prefix_witness:
  "top_k_logits exact_kernel [[Fin 0, Fin 0]] 0 (1/4) NegInf = Inr [[Fin 0, NegInf]] \<and>
   kept_ranked exact_kernel [Fin 0, Fin 0] (1/4) = [0] \<and>
   ranked [Fin 0, Fin 0] = [0, 1] \<and>
   cumulative_probs exact_kernel [Fin 0, Fin 0] = [1/2, 1]"
proof -
  have sd: "sort_desc [Fin 0, Fin 0] = [(Fin 0, 0), (Fin 0, 1)]"
    by (simp add: sort_desc_def upt_rec)
  have cp: "cumulative_probs exact_kernel [Fin 0, Fin 0] = [1/2, 1]"
    by (simp add: cumulative_probs_def softmax_def cumsum_def)
  have k: "kept_ranked exact_kernel [Fin 0, Fin 0] (1/4) = [0]"
    by (simp add: kept_ranked_def sd sorted_indices_to_remove_def cp)
  have r: "ranked [Fin 0, Fin 0] = [0, 1]"
    by (simp add: ranked_def sd)
  from top_p_keeps_minimal_prefix [of "1/4" "[Fin 0, Fin 0]" 0 exact_kernel NegInf,
      OF _ _ _ well_shaped_exact_kernel]
  obtain out where out: "top_k_logits exact_kernel [[Fin 0, Fin 0]] 0 (1/4) NegInf = Inr [out]"
      "length out = 2"
      "\<forall>i<2. out ! i = (if i \<in> set [0::nat] then [Fin 0, Fin 0] ! i else NegInf)"
    unfolding k by auto
  from out(3) have "out ! 0 = Fin 0" "out ! 1 = NegInf" by simp_all
  with out(2) have "out = [Fin 0, NegInf]"
    by (cases out; simp) (case_tac list; simp)
  with out show ?thesis using k r cp by simp
qed

text \<open>
  The claim as stated fails at the boundary: for two equal scores and \<open>top_p = 1/2\<close>
  both entries are kept, and removing the lower-ranked one leaves mass exactly \<open>1/2\<close>,
  which is not below \<open>top_p\<close>.  The probabilities \<open>1/2\<close> and their sum are exact in
  floating point.
\<close>

theorem top_p_minimality_counterexample:
  "top_k_logits exact_kernel [[Fin 0, Fin 0]] 0 (1/2) NegInf = Inr [[Fin 0, Fin 0]] \<and>
   kept_ranked exact_kernel [Fin 0, Fin 0] (1/2) = [0, 1] \<and>
   \<not> prob_mass [Fin 0, Fin 0] (butlast [0, 1]) < 1/2"
proof -
  have sd: "sort_desc [Fin 0, Fin 0] = [(Fin 0, 0), (Fin 0, 1)]"
    by (simp add: sort_desc_def upt_rec)
  have sm: "softmax [Fin 0, Fin 0] = [1/2, 1/2]"
    by (simp add: softmax_def)
  have cp: "cumulative_probs exact_kernel [Fin 0, Fin 0] = [1/2, 1]"
    by (simp add: cumulative_probs_def sm cumsum_def)
  show ?thesis
    by (simp add: top_k_logits_def top_p_filter_def indices_to_remove_def kept_ranked_def sd
        sorted_indices_to_remove_def cp sm bindE_def set_indices_def upt_rec prob_mass_def)
qed

section \<open>Claims about sample\_sequence\<close>

text \<open>
  C3.  In the single-sequence loop (\<open>num_beams \<le> 1\<close>), from any iteration \<open>c\<close> with the
  row \<open>row\<close> of tokens: if the token sampled in this iteration is an end token, the loop
  returns at once with the tokens unchanged, so the end token is not appended; if the
  counter has reached \<open>out_seq_length\<close> the loop returns at once; and whenever the loop
  returns, the tokens it appended contain no end token and are at most
  \<open>out_seq_length - c\<close> many.
\<close>

theorem single_beam_loop_stops:
  assumes "num_beams a \<le> 1" and "tokens st = [row]"
  shows "(c < out_seq_length a \<and>
          forward_step e a ct cl first c st = Inr (logits, ms) \<and>
          sample_token e a logits (rng st) = Inr (t, g') \<and> t \<in> set end_tokens \<longrightarrow>
            sample_loop e a ct cl first end_tokens c st = Inr (st\<lparr>mems := Some ms, rng := g'\<rparr>)) \<and>
         (out_seq_length a \<le> c \<longrightarrow> sample_loop e a ct cl first end_tokens c st = Inr st) \<and>
         (\<forall>st'. sample_loop e a ct cl first end_tokens c st = Inr st' \<longrightarrow>
            (\<exists>gen. tokens st' = [row @ gen] \<and> set gen \<inter> set end_tokens = {} \<and>
                   int (length gen) \<le> max 0 (out_seq_length a - c)))"
proof (intro conjI impI allI)
  assume "c < out_seq_length a \<and>
          forward_step e a ct cl first c st = Inr (logits, ms) \<and>
          sample_token e a logits (rng st) = Inr (t, g') \<and> t \<in> set end_tokens"
  then show "sample_loop e a ct cl first end_tokens c st = Inr (st\<lparr>mems := Some ms, rng := g'\<rparr>)"
    using sample_loop_end_token [OF assms(1), of c e ct cl first st logits ms t g' end_tokens]
    by simp
next
  assume "out_seq_length a \<le> c"
  then show "sample_loop e a ct cl first end_tokens c st = Inr st"
    by (rule sample_loop_bound)
next
  fix st'
  assume "sample_loop e a ct cl first end_tokens c st = Inr st'"
  then show "\<exists>gen. tokens st' = [row @ gen] \<and> set gen \<inter> set end_tokens = {} \<and>
                   int (length gen) \<le> max 0 (out_seq_length a - c)"
    using sample_loop_single [OF assms, of e ct cl first end_tokens c st'] by simp
qed

theorem single_beam_loop_stops_witness:
  "sample_loop tape_env test_args [[5, 7, 2]] 3 None [0] 0 (test_state [0])
     = Inr ((test_state [0])\<lparr>mems := Some [[()]], rng := []\<rparr>) \<and>
   sample_loop tape_env test_args [[5, 7, 2]] 3 None [0] 4 (test_state [0])
     = Inr (test_state [0])"
proof -
  have a: "num_beams test_args \<le> 1" "(0::int) < out_seq_length test_args"
    "out_seq_length test_args \<le> 4"
    by (simp_all add: test_args_def)
  have t: "tokens (test_state [0]) = [[1]]" by (simp add: test_state_def)
  have f: "forward_step tape_env test_args [[5, 7, 2]] 3 None 0 (test_state [0])
             = Inr ([[0, 0]], [[()]])"
    by (simp add: forward_step_def tape_env_def test_args_def test_state_def last_position_def)
  have s: "sample_token tape_env test_args [[0, 0]] (rng (test_state [0])) = Inr (0, [])"
    by (simp add: sample_token_def draw_token_def scale_logits_def tape_env_def test_args_def
        test_state_def top_k_logits_def)
  from single_beam_loop_stops [OF a(1) t, of 0 tape_env "[[5, 7, 2]]" 3 None "[[0, 0]]"
      "[[()]]" 0 "[]" "[0]"] a f s
  have 1: "sample_loop tape_env test_args [[5, 7, 2]] 3 None [0] 0 (test_state [0])
     = Inr ((test_state [0])\<lparr>mems := Some [[()]], rng := []\<rparr>)" by simp
  from single_beam_loop_stops [OF a(1) t, of 4 tape_env "[[5, 7, 2]]" 3 None _ _ _ _ "[0]"] a
  have 2: "sample_loop tape_env test_args [[5, 7, 2]] 3 None [0] 4 (test_state [0])
     = Inr (test_state [0])" by simp
  from 1 2 show ?thesis by simp
qed

text \<open>
  C4 (amended).  Context \<open>[5, 7, 2]\<close>, \<open>end_tokens = [0]\<close>, \<open>out_seq_length = 4\<close>, one
  beam, and a first step that samples token 0: in block mode the loop stops in its first
  iteration and the result is the context followed by the \<open>sop\<close> token only, the end
  token 0 is not appended; outside block mode the call raises NotImplementedError.
\<close>

theorem end_token_at_first_step:
  assumes "num_beams a \<le> 1" and "out_seq_length a = 4"
    and "model e [[get_command tok ''sop'']]
           (if no_block_position a then Pos1 [[cl]] else Pos2 [([cl], [1])]) (Zeros [1])
           (case mems0 of None \<Rightarrow> [] | Some m \<Rightarrow> m) = Inr (logits, ms)"
    and "last_position logits = Inr next_token_logits"
    and "sample_token e a next_token_logits g = Inr (0, g')"
  shows "sample_sequence e tok [[5, 7, 2]] cl a mems0 (Some [0]) g =
           (if block_lm a then Inr ([[5, 7, 2, get_command tok ''sop'']], Some ms, g')
            else Inl NotImplementedError)"
proof (cases "block_lm a")
  case False
  then show ?thesis by (simp add: sample_sequence_not_block)
next
  case True
  let ?st0 = "\<lparr>tokens = [[get_command tok ''sop'']],
               mems = Some (case mems0 of None \<Rightarrow> [] | Some m \<Rightarrow> m), rng = g, last_beam_num = 1,
               beam_scorer = None, beam_scores = None, next_tokens = None,
               next_indices = None\<rparr>"
  have f: "forward_step e a [[5, 7, 2]] cl None 0 ?st0 = Inr (next_token_logits, ms)"
    using True assms(3,4) by (cases "no_block_position a") (simp_all add: forward_step_def)
  have "sample_loop e a [[5, 7, 2]] cl None [0] 0 ?st0 = Inr (?st0\<lparr>mems := Some ms, rng := g'\<rparr>)"
    using assms(1,2,5) f by (intro sample_loop_end_token) simp_all
  then show ?thesis
    using True assms(1) by (simp add: sample_sequence_def cat_dim1_def)
qed

theorem end_token_at_first_step_witness:
  "sample_sequence tape_env test_tokenizer [[5, 7, 2]] 3 test_args None (Some [0]) [0] =
     Inr ([[5, 7, 2, 1]], Some [[()]], [])"
proof -
  have sop: "get_command test_tokenizer ''sop'' = 1" by (simp add: test_tokenizer_def)
  have a: "num_beams test_args \<le> 1" "out_seq_length test_args = 4" "block_lm test_args"
    "\<not> no_block_position test_args"
    by (simp_all add: test_args_def)
  have m: "model tape_env [[1]] (Pos2 [([3], [1])]) (Zeros [1]) [] = Inr ([[[0, 0]]], [[()]])"
    by (simp add: tape_env_def)
  have l: "last_position [[[0, 0]]] = Inr [[0, 0]]" by (simp add: last_position_def)
  have s: "sample_token tape_env test_args [[0, 0]] [0] = Inr (0, [])"
    by (simp add: sample_token_def draw_token_def scale_logits_def tape_env_def test_args_def
        top_k_logits_def)
  show ?thesis
    using end_token_at_first_step [of test_args tape_env test_tokenizer 3 None "[[[0, 0]]]"
        "[[()]]" "[[0, 0]]" "[0]" "[]"] sop a m l s
    by simp
qed

text \<open>
  The claim as stated fails: with \<open>sop = 1\<close> the result in block mode is
  \<open>[5, 7, 2, 1]\<close>, not \<open>[5, 7, 2, 0]\<close>, and outside block mode there is no result.
\<close>

theorem end_token_appended_counterexample:
  "sample_sequence tape_env test_tokenizer [[5, 7, 2]] 3 test_args None (Some [0]) [0] =
     Inr ([[5, 7, 2, 1]], Some [[()]], []) \<and>
   sample_sequence tape_env test_tokenizer [[5, 7, 2]] 3 (test_args\<lparr>block_lm := False\<rparr>)
     None (Some [0]) [0] = Inl NotImplementedError"
proof -
  have "sample_loop tape_env test_args [[5, 7, 2]] 3 None [0] 0
          \<lparr>tokens = [[1]], mems = Some [], rng = [0], last_beam_num = 1, beam_scorer = None,
           beam_scores = None, next_tokens = None, next_indices = None\<rparr> =
        Inr \<lparr>tokens = [[1]], mems = Some [[()]], rng = [], last_beam_num = 1,
           beam_scorer = None, beam_scores = None, next_tokens = None, next_indices = None\<rparr>"
    by (subst sample_loop.simps)
      (simp add: loop_body_def forward_step_def single_step_def sample_token_def draw_token_def
        scale_logits_def tape_env_def test_args_def last_position_def top_k_logits_def)
  then have "sample_sequence tape_env test_tokenizer [[5, 7, 2]] 3 test_args None (Some [0]) [0] =
     Inr ([[5, 7, 2, 1]], Some [[()]], [])"
    by (simp add: sample_sequence_def test_tokenizer_def cat_dim1_def)
      (simp add: test_args_def)
  moreover have "sample_sequence tape_env test_tokenizer [[5, 7, 2]] 3
     (test_args\<lparr>block_lm := False\<rparr>) None (Some [0]) [0] = Inl NotImplementedError"
    by (simp add: sample_sequence_def get_batch_def)
  ultimately show ?thesis by simp
qed

text \<open>
  C10.  Whenever \<open>sample_sequence\<close> returns normally, the result has the rows of the
  context, each row of the result starts with the corresponding row of the context
  unchanged, and with one beam the result is the single context row followed by the
  \<open>sop\<close> token and the generated tokens.
\<close>

theorem sample_sequence_keeps_context:
  assumes "sample_sequence e tok ctx cl a mems0 end_tokens0 g = Inr (out, ms, g')"
  shows "length out = length ctx \<and>
         (\<forall>i<length ctx. \<exists>gen. out ! i = ctx ! i @ gen) \<and>
         (num_beams a \<le> 1 \<longrightarrow>
            (\<exists>row gen. ctx = [row] \<and> out = [row @ get_command tok ''sop'' # gen]))"
proof -
  have blk: "block_lm a"
    using assms sample_sequence_not_block [of a e tok ctx cl mems0 end_tokens0 g]
    by auto
  let ?et = "case end_tokens0 of None \<Rightarrow> [eod_token a] | Some et \<Rightarrow> et"
  let ?st0 = "\<lparr>tokens = [[get_command tok ''sop'']],
               mems = Some (case mems0 of None \<Rightarrow> [] | Some m \<Rightarrow> m), rng = g, last_beam_num = 1,
               beam_scorer = None, beam_scores = None, next_tokens = None,
               next_indices = None\<rparr>"
  from assms blk obtain st toks where
    loop: "sample_loop e a ctx cl None ?et 0 ?st0 = Inr st"
    and fin: "num_beams a \<le> 1 \<longrightarrow> toks = tokens st"
    and cat: "cat_dim1 ctx toks = Inr out"
    by (auto simp: sample_sequence_def bindE_Inr_iff Let_def split: if_splits)
  from cat have len: "length ctx = length toks" and out: "out = map2 (@) ctx toks"
    by (simp_all add: cat_dim1_Inr)
  have 1: "length out = length ctx" using len out by simp
  have 2: "\<forall>i<length ctx. \<exists>gen. out ! i = ctx ! i @ gen"
    using len out by simp
  have 3: "\<exists>row gen. ctx = [row] \<and> out = [row @ get_command tok ''sop'' # gen]"
    if nb: "num_beams a \<le> 1"
  proof -
    from sample_loop_single [OF nb _ loop, of "[get_command tok ''sop'']"]
    obtain gen where "tokens st = [[get_command tok ''sop''] @ gen]" by auto
    with fin nb have toks: "toks = [get_command tok ''sop'' # gen]" by simp
    with len obtain row where "ctx = [row]"
      by (cases ctx) auto
    with toks out show ?thesis by simp
  qed
  from 1 2 3 show ?thesis by blast
qed

theorem sample_sequence_keeps_context_witness:
  "sample_sequence tape_env test_tokenizer [[5, 7, 2]] 3 test_args None (Some [0]) [2, 0] =
     Inr ([[5, 7, 2, 1, 2]], Some [[()]], []) \<and>
   length [[5, 7, 2, 1, 2 :: int]] = length [[5, 7, 2 :: int]] \<and>
   (\<exists>gen. [[5, 7, 2, 1, 2 :: int]] ! 0 = [[5, 7, 2]] ! 0 @ gen)"
proof -
  let ?s = "\<lambda>toks ms tape. \<lparr>tokens = toks, mems = Some ms, rng = tape, last_beam_num = 1,
      beam_scorer = None, beam_scores = None, next_tokens = None, next_indices = None\<rparr>
        :: (unit, nat list, unit) loop_state"
  have b1: "loop_body tape_env test_args [[5, 7, 2]] 3 None [0] 0 (?s [[1]] [] [2, 0])
      = Inr (Continue (?s [[1, 2]] [[()]] [0]))"
    by (simp add: loop_body_def forward_step_def single_step_def sample_token_def draw_token_def
        scale_logits_def tape_env_def test_args_def last_position_def top_k_logits_def
        cat_dim1_def)
  have b2: "loop_body tape_env test_args [[5, 7, 2]] 3 None [0] 1 (?s [[1, 2]] [[()]] [0])
      = Inr (Break (?s [[1, 2]] [[()]] []))"
    by (simp add: loop_body_def forward_step_def single_step_def sample_token_def draw_token_def
        scale_logits_def tape_env_def test_args_def last_position_def top_k_logits_def
        cat_dim1_def)
  have osl: "out_seq_length test_args = 4" by (simp add: test_args_def)
  have "sample_loop tape_env test_args [[5, 7, 2]] 3 None [0] 1 (?s [[1, 2]] [[()]] [0])
      = Inr (?s [[1, 2]] [[()]] [])"
    by (subst sample_loop.simps) (simp add: b2 osl)
  then have "sample_loop tape_env test_args [[5, 7, 2]] 3 None [0] 0 (?s [[1]] [] [2, 0])
      = Inr (?s [[1, 2]] [[()]] [])"
    by (subst sample_loop.simps) (simp add: b1 osl)
  then have r: "sample_sequence tape_env test_tokenizer [[5, 7, 2]] 3 test_args None (Some [0]) [2, 0] =
     Inr ([[5, 7, 2, 1, 2]], Some [[()]], [])"
    by (simp add: sample_sequence_def test_tokenizer_def cat_dim1_def)
      (simp add: test_args_def)
  note k = sample_sequence_keeps_context [OF r]
  from k have a: "length [[5, 7, 2, 1, 2 :: int]] = length [[5, 7, 2 :: int]]"
    by (rule conjunct1)
  from k have b: "\<forall>i<length [[5, 7, 2 :: int]].
      \<exists>gen. [[5, 7, 2, 1, 2 :: int]] ! i = [[5, 7, 2]] ! i @ gen"
    by (rule conjunct2 [THEN conjunct1])
  from b have "\<exists>gen. [[5, 7, 2, 1, 2 :: int]] ! 0 = [[5, 7, 2]] ! 0 @ gen"
    by simp
  with r a show ?thesis by (intro conjI)
qed

text \<open>
  C5 (amended).  The sampling step validates neither the temperature nor \<open>top_p\<close>.  For
  every nonzero temperature, negative ones included, and every \<open>top_p\<close>, values outside
  [0,1] included, on a nonempty row of logits and with \<open>top_k\<close> not above the size of the
  row: scaling and \<open>top_k_logits\<close> succeed, and the step does exactly what the one
  multinomial draw from the softmax of the filtered row does, so it returns the drawn
  token whenever that draw succeeds.  (A zero temperature is not covered.)
\<close>

theorem sample_token_never_validates:
  assumes "temperature a \<noteq> 0" and "row \<noteq> []" and "top_k a \<le> int (length row)"
  shows "\<exists>out. top_k_logits (arith e) [scale_logits (arith e) (temperature a) row]
                  (top_k a) (top_p a) NegInf = Inr [out] \<and>
               length out = length row \<and>
               sample_token e a [row] g = draw_token e g [softmax_op (arith e) out] \<and>
               (\<forall>t g'. multinomial e g [softmax_op (arith e) out] 1 = Inr ([[t]], g') \<longrightarrow>
                        sample_token e a [row] g = Inr (int t, g'))"
proof -
  let ?scaled = "scale_logits (arith e) (temperature a) row"
  have len: "length ?scaled = length row" by (simp add: scale_logits_def)
  with assms(2) have ne: "?scaled \<noteq> []" by (metis length_0_conv)
  have k: "top_k a \<le> int (length ?scaled)" using assms(3) len by simp
  from top_k_logits_total [OF ne k, of "arith e" "top_p a" NegInf] obtain out where
    out: "top_k_logits (arith e) [?scaled] (top_k a) (top_p a) NegInf = Inr [out]"
      "length out = length ?scaled" by blast
  have st: "sample_token e a [row] g = draw_token e g [softmax_op (arith e) out]"
    using assms(1) out(1) by (simp add: sample_token_def)
  have "sample_token e a [row] g = Inr (int t, g')"
    if "multinomial e g [softmax_op (arith e) out] 1 = Inr ([[t]], g')" for t g'
    unfolding st using that by (simp add: draw_token_def)
  with out st len show ?thesis by auto
qed

theorem sample_token_never_validates_witness:
  "sample_token tape_env (test_args\<lparr>temperature := - 1, top_p := 2\<rparr>) [[0, 0]] [0] = Inr (0, [])"
proof -
  let ?a = "test_args\<lparr>temperature := - 1, top_p := 2\<rparr>"
  have h: "temperature ?a \<noteq> 0" "[0, 0 :: real] \<noteq> []" "top_k ?a \<le> int (length [0, 0 :: real])"
    by (simp_all add: test_args_def)
  have m: "multinomial tape_env [0] [probs] 1 = Inr ([[0]], [])" for probs
    by (simp add: tape_env_def)
  from sample_token_never_validates [OF h, of tape_env "[0]"] obtain out where
    "\<forall>t g'. multinomial tape_env [0] [softmax_op (arith tape_env) out] 1 = Inr ([[t]], g') \<longrightarrow>
             sample_token tape_env ?a [[0, 0]] [0] = Inr (int t, g')"
    by blast
  with m [of "softmax_op (arith tape_env) out"] show ?thesis by simp
qed

text \<open>
  The claim as stated fails: with temperature \<open>-1\<close> and \<open>top_p = 2\<close> the step returns
  the drawn token and raises nothing.  On two zero scores every value of this run is
  exact in floating point.
\<close>

theorem invalid_parameters_counterexample:
  "temperature (test_args\<lparr>temperature := - 1, top_p := 2\<rparr>) \<le> 0 \<and>
   \<not> (0 \<le> top_p (test_args\<lparr>temperature := - 1, top_p := 2\<rparr>) \<and>
      top_p (test_args\<lparr>temperature := - 1, top_p := 2\<rparr>) \<le> 1) \<and>
   sample_token tape_env (test_args\<lparr>temperature := - 1, top_p := 2\<rparr>) [[0, 0]] [0] = Inr (0, [])"
proof -
  have sd: "sort_desc [Fin 0, Fin 0] = [(Fin 0, 0), (Fin 0, 1)]"
    by (simp add: sort_desc_def upt_rec)
  have "top_k_logits exact_kernel [[Fin 0, Fin 0]] 0 2 NegInf = Inr [[Fin 0, Fin 0]]"
    by (simp add: top_k_logits_def top_p_filter_def indices_to_remove_def sd
        sorted_indices_to_remove_def cumulative_probs_def softmax_def cumsum_def
        set_indices_def upt_rec)
  then show ?thesis
    by (simp add: sample_token_def draw_token_def scale_logits_def tape_env_def test_args_def)
qed

section \<open>Claims about beam search\<close>

text \<open>
  C7.  One step of the beam branch (lines 173--205), on the candidates of lines 174--186
  and with a scorer object bound to \<open>beam_scorer\<close>.  If \<open>beam_scorer.process\<close> returns
  \<open>next_beam_indices\<close> that lie within the expanded token rows and within every cache
  layer, with one token per index, the step ends in the state in which the token rows and
  every cache layer are gathered along these same indices: row \<open>j\<close> of the new tokens
  is row \<open>beam_idx[j]\<close> of the expanded rows followed by the \<open>j\<close>-th chosen token, and
  slice \<open>j\<close> of every layer is its old slice \<open>beam_idx[j]\<close> (an empty cache list
  becomes \<open>None\<close>).  \<open>ChatModel._reorder_cache\<close> gathers the keys and the values of every
  layer along the beam dimension with the indices it is given.  In \<open>inference_glm.py\<close>
  itself no call of \<open>sample_sequence\<close> reaches this step, since line 144 raises NameError
  (lemma \<open>sample_sequence_beams\<close>); the step is the loop body as written.
\<close>

theorem beam_step_gathers_cache:
  assumes "beam_candidates e a logits st = Inr (scores, nt, ni, g')"
    and "beam_scorer st = Some b"
    and "expand_rows (tokens st) (num_beams a) = Inr toks"
    and "process e b toks scores nt ni end_tokens (Some ms) = Inr (outs, b')"
    and "\<forall>i \<in> set (next_beam_indices outs). i < length toks"
    and "\<forall>mem \<in> set ms. \<forall>i \<in> set (next_beam_indices outs). i < length mem"
    and "length (next_beam_tokens outs) = length (next_beam_indices outs)"
    and "\<forall>layer \<in> set past. \<forall>row \<in> set (fst layer) \<union> set (snd layer).
           \<forall>i \<in> set idx. i < length row"
  shows "beam_step e a end_tokens logits ms st
         = Inr ((if is_done e b' then Break else Continue)
                  (st\<lparr>tokens := map2 (\<lambda>i t. toks ! i @ [t])
                                   (next_beam_indices outs) (next_beam_tokens outs),
                       mems := (if ms = [] then None
                                else Some (map (\<lambda>mem. map (\<lambda>i. mem ! i)
                                                        (next_beam_indices outs)) ms)),
                       rng := g', beam_scorer := Some b',
                       beam_scores := Some (next_beam_scores outs),
                       next_tokens := Some nt, next_indices := Some ni,
                       last_beam_num := (if is_done e b' then last_beam_num st
                                         else num_beams a)\<rparr>)) \<and>
         reorder_cache past idx
         = Inr (map (\<lambda>layer. (map (\<lambda>row. map (\<lambda>i. row ! i) idx) (fst layer),
                               map (\<lambda>row. map (\<lambda>i. row ! i) idx) (snd layer))) past)"
proof
  show "beam_step e a end_tokens logits ms st
         = Inr ((if is_done e b' then Break else Continue)
                  (st\<lparr>tokens := map2 (\<lambda>i t. toks ! i @ [t])
                                   (next_beam_indices outs) (next_beam_tokens outs),
                       mems := (if ms = [] then None
                                else Some (map (\<lambda>mem. map (\<lambda>i. mem ! i)
                                                        (next_beam_indices outs)) ms)),
                       rng := g', beam_scorer := Some b',
                       beam_scores := Some (next_beam_scores outs),
                       next_tokens := Some nt, next_indices := Some ni,
                       last_beam_num := (if is_done e b' then last_beam_num st
                                         else num_beams a)\<rparr>))"
    unfolding beam_step_def assms(1) bindE_simps
    by (rule beam_select_eq [OF assms(2-7)])
next
  show "reorder_cache past idx
         = Inr (map (\<lambda>layer. (map (\<lambda>row. map (\<lambda>i. row ! i) idx) (fst layer),
                               map (\<lambda>row. map (\<lambda>i. row ! i) idx) (snd layer))) past)"
    by (rule reorder_cache_eq [OF assms(8)])
qed

theorem beam_step_gathers_cache_witness:
  "(\<exists>st'. beam_step beam_env beam_args [9] [[0, 0], [0, 0]] [[100, 200]] beam_state
            = Inr (Continue st') \<and>
          tokens st' = [[5, 11, 0], [5, 10, 1]] \<and> mems st' = Some [[200, 100]] \<and>
          next_indices st' = Some [1, 0, 0, 1]) \<and>
   reorder_cache [([[100, 200]], [[300, 400 :: nat]])] [1, 0]
     = Inr [([[200, 100]], [[400, 300]])]"
proof -
  let ?outs = "\<lparr>next_beam_scores = [- ln 2, - ln 2], next_beam_tokens = [0, 1],
                next_beam_indices = [1, 0]\<rparr>"
  have c: "beam_candidates beam_env beam_args [[0, 0], [0, 0]] beam_state
        = Inr ([- ln 2, - ln 2, - ln 2, - ln 2], [0, 1, 0, 1], [1, 0, 0, 1], [])"
    by (simp add: beam_candidates_def add_beam_scores_def log_softmax_def beam_state_def
        beam_env_def beam_args_def sort_desc_def upt_rec)
      (simp flip: numeral_2_eq_2)
  have b: "beam_scorer beam_state = Some ()" by (simp add: beam_state_def)
  have x: "expand_rows (tokens beam_state) (num_beams beam_args) = Inr [[5, 10], [5, 11]]"
    by (simp add: expand_rows_def beam_state_def beam_args_def)
  have p: "process beam_env () [[5, 10], [5, 11]] [- ln 2, - ln 2, - ln 2, - ln 2]
             [0, 1, 0, 1] [1, 0, 0, 1] [9] (Some [[100, 200]]) = Inr (?outs, ())"
    by (simp add: beam_env_def)
  have r: "\<forall>i \<in> set (next_beam_indices ?outs). i < length [[5, 10], [5, 11 :: int]]"
    "\<forall>mem \<in> set [[100, 200 :: nat]]. \<forall>i \<in> set (next_beam_indices ?outs). i < length mem"
    "length (next_beam_tokens ?outs) = length (next_beam_indices ?outs)"
    "\<forall>layer \<in> set [([[100, 200]], [[300, 400 :: nat]])].
       \<forall>row \<in> set (fst layer) \<union> set (snd layer). \<forall>i \<in> set [1, 0 :: nat]. i < length row"
    by simp_all
  from beam_step_gathers_cache [OF c b x p r] show ?thesis
    by (simp add: beam_env_def beam_state_def beam_args_def)
qed

section \<open>Claims about the session driver\<close>

text \<open>
  C6 (amended).  In block mode a missing mask is never an error.  A prompt without
  \<open>MASK]\<close> (not empty, not \<open>stop\<close>, short enough) is accepted by \<open>read_context\<close> with
  the generation mask appended to its text; and when the tokenized context holds no mask
  id and the one encoding pass, on the mask and the positions of \<open>get_batch\<close>, succeeds,
  \<open>generate_samples\<close> samples nothing and its output is the context unchanged.
\<close>

theorem missing_mask_is_not_an_error:
  assumes "block_lm a"
  shows "(line \<noteq> [] \<and> line \<noteq> ''stop'' \<and> \<not> contains ''MASK]'' line \<and>
          int (length (get_command tok ''ENC'' #
                 EncodeAsIds tok (line @ '' '' @ (if task_mask a then ''[gMASK]'' else ''[MASK]''))))
            < max_sequence_length a \<longrightarrow>
          prompt_loop tok a (line # rest) =
            Inr (\<lparr>terminate_runs = 0,
                  raw_text = Some (line @ '' '' @ (if task_mask a then ''[gMASK]'' else ''[MASK]'')),
                  context_tokens = Some (get_command tok ''ENC'' #
                    EncodeAsIds tok (line @ '' '' @ (if task_mask a then ''[gMASK]'' else ''[MASK]''))),
                  context_length = Some (int (length (get_command tok ''ENC'' #
                    EncodeAsIds tok (line @ '' '' @ (if task_mask a then ''[gMASK]'' else ''[MASK]'')))))\<rparr>,
                 rest)) \<and>
         (mask_positions tok a ctx = [] \<and>
          get_batch ctx a = Inr (toks, am, pos) \<and>
          model e toks pos am [] = Inr (logits, ms) \<longrightarrow>
          generate_round e tok a ctx cl g = Inr (ctx, g))"
proof (intro conjI impI)
  assume h: "line \<noteq> [] \<and> line \<noteq> ''stop'' \<and> \<not> contains ''MASK]'' line \<and>
          int (length (get_command tok ''ENC'' #
                 EncodeAsIds tok (line @ '' '' @ (if task_mask a then ''[gMASK]'' else ''[MASK]''))))
            < max_sequence_length a"
  show "prompt_loop tok a (line # rest) =
            Inr (\<lparr>terminate_runs = 0,
                  raw_text = Some (line @ '' '' @ (if task_mask a then ''[gMASK]'' else ''[MASK]'')),
                  context_tokens = Some (get_command tok ''ENC'' #
                    EncodeAsIds tok (line @ '' '' @ (if task_mask a then ''[gMASK]'' else ''[MASK]''))),
                  context_length = Some (int (length (get_command tok ''ENC'' #
                    EncodeAsIds tok (line @ '' '' @ (if task_mask a then ''[gMASK]'' else ''[MASK]'')))))\<rparr>,
                 rest)"
    using h assms generation_mask_endswith [of line a]
    by (simp add: encode_prompt_def Let_def)
next
  assume h: "mask_positions tok a ctx = [] \<and>
          get_batch ctx a = Inr (toks, am, pos) \<and>
          model e toks pos am [] = Inr (logits, ms)"
  then have mp: "mask_positions tok a ctx = []"
    and gb: "get_batch ctx a = Inr (toks, am, pos)"
    and m: "model e toks pos am [] = Inr (logits, ms)" by simp_all
  from gb assms have toks: "toks = [ctx]"
    by (simp add: get_batch_def Let_def)
  from m toks have m': "model e [ctx] pos am [] = Inr (logits, ms)" by simp
  from gb toks have gb': "get_batch ctx a = Inr ([ctx], am, pos)" by simp
  show "generate_round e tok a ctx cl g = Inr (ctx, g)"
    using assms
    unfolding generate_round_def gb' mp
    by (simp add: Let_def m')
qed

theorem missing_mask_is_not_an_error_witness:
  "prompt_loop test_tokenizer test_args [''hi''] =
     Inr (\<lparr>terminate_runs = 0, raw_text = Some ''hi [MASK]'',
           context_tokens = Some [6, 104, 105, 32, 91, 77, 65, 83, 75, 93],
           context_length = Some 10\<rparr>, []) \<and>
   generate_round tape_env test_tokenizer test_args [6, 104, 105, 32, 91, 77, 65, 83, 75, 93]
     10 [] = Inr ([6, 104, 105, 32, 91, 77, 65, 83, 75, 93], [])"
proof -
  let ?ctx = "[6, 104, 105, 32, 91, 77, 65, 83, 75, 93] :: int list"
  have b: "block_lm test_args" by (simp add: test_args_def)
  have l: "''hi'' \<noteq> [] \<and> ''hi'' \<noteq> ''stop'' \<and> \<not> contains ''MASK]'' ''hi'' \<and>
      int (length (get_command test_tokenizer ''ENC'' #
             EncodeAsIds test_tokenizer
               (''hi'' @ '' '' @ (if task_mask test_args then ''[gMASK]'' else ''[MASK]''))))
        < max_sequence_length test_args"
    by (simp add: test_tokenizer_def test_args_def)
  have mp: "mask_positions test_tokenizer test_args ?ctx = []"
    by (simp add: mask_positions_def test_tokenizer_def test_args_def upt_rec)
  have gb: "get_batch ?ctx test_args
      = Inr ([?ctx], Ones [1, 1, 10, 10],
             Pos2 [(map int [0..<length ?ctx], replicate (length ?ctx) 0)])"
    by (simp add: get_batch_def test_args_def)
  have m: "model tape_env [?ctx] (Pos2 [(map int [0..<length ?ctx], replicate (length ?ctx) 0)])
             (Ones [1, 1, 10, 10]) [] = Inr ([[[0, 0]]], [[()]])"
    by (simp add: tape_env_def)
  from missing_mask_is_not_an_error [OF b, where line = "''hi''" and tok = test_tokenizer
      and rest = "[]" and ctx = ?ctx and toks = "[?ctx]" and am = "Ones [1, 1, 10, 10]"
      and pos = "Pos2 [(map int [0..<length ?ctx], replicate (length ?ctx) 0)]"
      and e = tape_env and logits = "[[[0, 0]]]" and ms = "[[()]]" and cl = 10 and g = "[]"]
    l mp gb m
  show ?thesis
    by (simp add: test_tokenizer_def test_args_def)
qed

text \<open>
  The claim as stated fails: in block mode, on a context without any mask id, the round
  returns the context instead of failing.
\<close>

theorem missing_mask_counterexample:
  "block_lm test_args \<and> mask_positions test_tokenizer test_args [6, 5, 7] = [] \<and>
   generate_round tape_env test_tokenizer test_args [6, 5, 7] 3 [] = Inr ([6, 5, 7], [])"
proof -
  have mp: "mask_positions test_tokenizer test_args [6, 5, 7] = []"
    by (simp add: mask_positions_def test_tokenizer_def test_args_def upt_rec)
  have gb: "get_batch [6, 5, 7] test_args = Inr ([[6, 5, 7]], Ones [1, 1, 3, 3], Pos2 [([0, 1, 2], [0, 0, 0])])"
    by (simp add: get_batch_def test_args_def upt_rec eval_nat_numeral)
  have "generate_round tape_env test_tokenizer test_args [6, 5, 7] 3 [] = Inr ([6, 5, 7], [])"
    unfolding generate_round_def gb mp
    by (simp add: tape_env_def test_args_def)
  with mp show ?thesis by (simp add: test_args_def)
qed

text \<open>
  C8.  With at least one rank in the group and a prompt loop on rank 0 that ends:
  on \<open>stop\<close> the only broadcast is the flag and every rank returns
  \<open>(1, None, None, None)\<close>; otherwise the broadcasts are, in this order, the flag, the
  context length and the context tokens, no broadcast fails, and every rank returns the
  same flag, the same length and the same tokens, those of rank 0.
\<close>

theorem read_context_agrees:
  assumes w: "0 < world" and pl: "prompt_loop tok a stdin = Inr (prompt, rest)"
  shows "(terminate_runs prompt = 1 \<longrightarrow>
            read_context tok a world stdin =
              Inr (replicate world (1, None, None, None), [[1]], rest)) \<and>
         (terminate_runs prompt \<noteq> 1 \<longrightarrow>
            (\<exists>ids. context_tokens prompt = Some ids \<and>
               read_context tok a world stdin =
                 Inr (map (\<lambda>rank. (0, if rank \<noteq> 0 then Some (DecodeIds tok ids)
                                       else raw_text prompt,
                                   Some ids, Some (int (length ids))))
                        [0..<world],
                      [[0], [int (length ids)], ids], rest)))"
proof -
  define ls where "ls = map (rank_locals prompt) [0..<world]"
  have len_ls: "length ls = world" by (simp add: ls_def)
  have ls_nth: "ls ! r = rank_locals prompt r" if "r < world" for r
    using that by (simp add: ls_def)
  have ls0: "ls ! 0 = prompt" using w by (simp add: ls_nth rank_locals_def)
  have ls_ne: "ls \<noteq> []" using w len_ls by auto
  let ?t = "terminate_runs prompt"
  let ?fb = "map (\<lambda>l. [terminate_runs l]) ls"
  have "broadcast ?fb 0 = Inr (replicate (length ?fb) (?fb ! 0))"
    using ls_ne by (intro broadcast_const_len [where n = 1]) simp_all
  then have flags: "broadcast ?fb 0 = Inr (replicate world [?t])"
    using w len_ls ls0 by simp
  let ?flags = "replicate world [?t]"
  have rc: "read_context tok a world stdin =
      (if \<forall>f \<in> set ?flags. hd f = 1 then
            Inr (map (\<lambda>f. (hd f, None, None, None)) ?flags, [?flags ! 0], rest)
          else if \<exists>f \<in> set ?flags. hd f = 1 then Inl RuntimeError
          else
            bindE (mapE (\<lambda>l. case context_length l of
                                None \<Rightarrow> Inl UnboundLocalError
                              | Some n \<Rightarrow> Inr [n]) ls)
              (\<lambda>length_tensors.
                 bindE (broadcast length_tensors 0)
                   (\<lambda>lengths.
                      bindE (mapE (\<lambda>(rank, l, len).
                                     if rank = 0 then
                                       (case context_tokens l of
                                          None \<Rightarrow> Inl UnboundLocalError
                                        | Some ids \<Rightarrow> Inr ids)
                                     else Inr (replicate (nat (hd len)) 0))
                               (zip [0..<world] (zip ls lengths)))
                        (\<lambda>token_tensors.
                           bindE (broadcast token_tensors 0)
                             (\<lambda>toks.
                                Inr (map (\<lambda>(rank, l, f, len, ids).
                                            (hd f,
                                             if rank \<noteq> 0 then Some (DecodeIds tok ids)
                                             else raw_text l,
                                             Some ids, Some (hd len)))
                                       (zip [0..<world]
                                          (zip ls (zip ?flags (zip lengths toks)))),
                                     [?flags ! 0, lengths ! 0, toks ! 0], rest))))))"
    apply (simp only: read_context_def pl bindE_simps prod.case Let_def)
    apply (fold ls_def)
    apply (simp only: flags bindE_simps)
    done
  have stop: "read_context tok a world stdin =
              Inr (replicate world (1, None, None, None), [[1]], rest)" if "?t = 1"
    unfolding rc using that w by simp
  have go: "\<exists>ids. context_tokens prompt = Some ids \<and>
               read_context tok a world stdin =
                 Inr (map (\<lambda>rank. (0, if rank \<noteq> 0 then Some (DecodeIds tok ids)
                                       else raw_text prompt,
                                   Some ids, Some (int (length ids))))
                        [0..<world],
                      [[0], [int (length ids)], ids], rest)" if nt: "?t \<noteq> 1"
  proof -
    from prompt_loop_result [OF pl] nt obtain ids where
      t0: "?t = 0" and ids: "context_tokens prompt = Some ids"
      and n: "context_length prompt = Some (int (length ids))" by blast
    let ?n = "int (length ids)"
    let ?g = "\<lambda>l. [the (context_length l)]"
    have cl: "\<forall>l \<in> set ls. (case context_length l of None \<Rightarrow> Inl UnboundLocalError
                                  | Some n \<Rightarrow> Inr [n]) = Inr (?g l)"
      using n by (auto simp: ls_def rank_locals_def)
    have lt: "mapE (\<lambda>l. case context_length l of None \<Rightarrow> Inl UnboundLocalError
                                  | Some n \<Rightarrow> Inr [n]) ls = Inr (map ?g ls)"
      using cl by (rule mapE_map)
    have "broadcast (map ?g ls) 0 = Inr (replicate (length (map ?g ls)) (map ?g ls ! 0))"
      using ls_ne by (intro broadcast_const_len [where n = 1]) simp_all
    then have lengths: "broadcast (map ?g ls) 0 = Inr (replicate world [?n])"
      using w len_ls ls0 n by simp
    let ?G = "\<lambda>r. if r = 0 then ids else replicate (nat ?n) (0::int)"
    let ?F = "\<lambda>(rank, l, len).
                 if rank = 0 then
                   (case context_tokens l of None \<Rightarrow> Inl UnboundLocalError | Some ids \<Rightarrow> Inr ids)
                 else Inr (replicate (nat (hd len)) (0::int))"
    have z2: "zip [0..<world] (zip ls (replicate world [?n])) =
                map (\<lambda>r. (r, ls ! r, [?n])) [0..<world]"
      using len_ls by (rule zip_ranks2)
    have "\<forall>x \<in> set (map (\<lambda>r. (r, ls ! r, [?n])) [0..<world]). ?F x = Inr (?G (fst x))"
      using ls0 ids by auto
    then have "mapE ?F (map (\<lambda>r. (r, ls ! r, [?n])) [0..<world]) =
                 Inr (map (\<lambda>x. ?G (fst x)) (map (\<lambda>r. (r, ls ! r, [?n])) [0..<world]))"
      by (rule mapE_map)
    then have tt: "mapE ?F (zip [0..<world] (zip ls (replicate world [?n]))) =
                 Inr (map ?G [0..<world])"
      unfolding z2 by (simp add: comp_def)
    have "broadcast (map ?G [0..<world]) 0 =
            Inr (replicate (length (map ?G [0..<world])) (map ?G [0..<world] ! 0))"
      using w by (intro broadcast_const_len [where n = "length ids"]) auto
    then have toks: "broadcast (map ?G [0..<world]) 0 = Inr (replicate world ids)"
      using w by simp
    have z4: "zip [0..<world] (zip ls (zip (replicate world [0::int])
                 (zip (replicate world [?n]) (replicate world ids)))) =
              map (\<lambda>r. (r, ls ! r, [0], [?n], ids)) [0..<world]"
      using len_ls by (rule zip_ranks4)
    have res: "map (\<lambda>(rank, l, f, len, ids).
                      (hd f, if rank \<noteq> 0 then Some (DecodeIds tok ids) else raw_text l,
                       Some ids, Some (hd len)))
                 (map (\<lambda>r. (r, ls ! r, [0::int], [?n], ids)) [0..<world]) =
               map (\<lambda>rank. (0, if rank \<noteq> 0 then Some (DecodeIds tok ids)
                                       else raw_text prompt,
                                   Some ids, Some ?n)) [0..<world]"
      using ls0 by (auto simp: comp_def)
    have "read_context tok a world stdin =
                 Inr (map (\<lambda>rank. (0, if rank \<noteq> 0 then Some (DecodeIds tok ids)
                                       else raw_text prompt,
                                   Some ids, Some ?n)) [0..<world],
                      [[0], [?n], ids], rest)"
    proof -
      have c1: "\<not> (\<forall>f \<in> set (replicate world [0::int]). hd f = 1)" using w by simp
      have c2: "\<not> (\<exists>f \<in> set (replicate world [0::int]). hd f = 1)" by simp
      have n0: "replicate world [0::int] ! 0 = [0]" "replicate world [?n] ! 0 = [?n]"
        "replicate world ids ! 0 = ids" using w by simp_all
      show ?thesis
        unfolding rc t0
        by (simp only: c1 c2 if_False lt bindE_simps lengths tt toks z4 res n0)
    qed
    with ids show ?thesis by blast
  qed
  from stop go show ?thesis by blast
qed

theorem read_context_agrees_witness:
  "read_context test_tokenizer test_args 2 ['''', ''stop'', ''x''] =
     Inr ([(1, None, None, None), (1, None, None, None)], [[1]], [''x'']) \<and>
   read_context test_tokenizer test_args 2 [''[MASK]''] =
     Inr ([(0, Some ''[MASK]'', Some [6, 91, 77, 65, 83, 75, 93], Some 7),
           (0, Some (DecodeIds test_tokenizer [6, 91, 77, 65, 83, 75, 93]),
            Some [6, 91, 77, 65, 83, 75, 93], Some 7)],
          [[0], [7], [6, 91, 77, 65, 83, 75, 93]], [])"
proof -
  have w: "0 < (2::nat)" by simp
  have u: "[0..<2] = [0, 1]" by (simp add: upt_rec)
  have p1: "prompt_loop test_tokenizer test_args ['''', ''stop'', ''x''] =
      Inr (\<lparr>terminate_runs = 1, raw_text = Some ''stop'', context_tokens = None,
            context_length = None\<rparr>, [''x''])"
    by simp
  have e: "encode_prompt test_tokenizer test_args ''[MASK]'' =
             (''[MASK]'', [6, 91, 77, 65, 83, 75, 93])"
    by (simp add: encode_prompt_def test_tokenizer_def test_args_def endswith_def)
  have p2: "prompt_loop test_tokenizer test_args [''[MASK]''] =
      Inr (\<lparr>terminate_runs = 0, raw_text = Some ''[MASK]'',
            context_tokens = Some [6, 91, 77, 65, 83, 75, 93],
            context_length = Some 7\<rparr>, [])"
    by (simp add: e) (simp add: test_args_def)
  from read_context_agrees [OF w p1]
  have 1: "read_context test_tokenizer test_args 2 ['''', ''stop'', ''x''] =
     Inr ([(1, None, None, None), (1, None, None, None)], [[1]], [''x''])"
    by (simp add: eval_nat_numeral)
  from read_context_agrees [OF w p2]
  have 2: "read_context test_tokenizer test_args 2 [''[MASK]''] =
     Inr ([(0, Some ''[MASK]'', Some [6, 91, 77, 65, 83, 75, 93], Some 7),
           (0, Some (DecodeIds test_tokenizer [6, 91, 77, 65, 83, 75, 93]),
            Some [6, 91, 77, 65, 83, 75, 93], Some 7)],
          [[0], [7], [6, 91, 77, 65, 83, 75, 93]], [])"
    by (simp add: u)
  from 1 2 show ?thesis by (intro conjI)
qed

section \<open>Claims about greedy decoding\<close>

text \<open>
  C9.  With \<open>do_sample = False\<close> the values that \<open>stream_generate\<close> yields, and the way
  its run ends, do not depend on the state of the random generator: for the same input
  ids and model arguments, two runs of any length started with any two generator states
  give the same result.
\<close>

theorem greedy_decoding_deterministic:
  assumes "\<not> do_sample cfg"
  shows "stream_generate e cfg n ids kw g1 = stream_generate e cfg n ids kw g2"
proof -
  let ?s = "\<lparr>input_ids = ids, model_kwargs = kw,
             unfinished_sequences = replicate (length ids) 1, chat_rng = g1\<rparr>"
  have "stream_generate e cfg n ids kw g2 = stream_loop e cfg n (?s\<lparr>chat_rng := g2\<rparr>)"
    by (simp add: stream_generate_def)
  also have "\<dots> = stream_loop e cfg n ?s" by (rule stream_loop_greedy [OF assms])
  finally show ?thesis by (simp add: stream_generate_def)
qed

theorem greedy_decoding_deterministic_witness:
  "stream_generate chat_test_env greedy_config 2 [[7]] () [2] =
     ([[[7, 0]], [[7, 0, 0]]], Running)"
proof -
  have "\<not> do_sample greedy_config" by (simp add: greedy_config_def)
  from greedy_decoding_deterministic [OF this, of chat_test_env 2 "[[7]]" "()" "[3]" "[2]"]
  show ?thesis by (simp add: greedy_run)
qed



end
